theory Spec2Isabelle
  imports Complex_Main "HOL-Library.Sublist"
begin

section \<open>The experiment scheduler of run\_relational\_experiment.py\<close>

text \<open>
  A shallow embedding of \<^verbatim>\<open>helper_scripts/run_relational_experiment.py\<close>: the
  \<^verbatim>\<open>Experiment\<close> value object, \<^verbatim>\<open>generate_experiment_permutations\<close>, the
  \<^verbatim>\<open>ExperimentRunner\<close> with its \<^verbatim>\<open>run\<close> and \<^verbatim>\<open>kill\<close> methods, and the input
  validation at the head of \<^verbatim>\<open>main\<close>. Python strings are \<open>string\<close>, Python's unbounded
  integers are \<open>int\<close>, and the operating system the script talks to is an explicit
  \<open>world\<close> value that every effectful function takes and returns.
\<close>

subsection \<open>Python string primitives\<close>

definition digit :: "nat \<Rightarrow> char" where
  "digit d = ''0123456789'' ! d"

text \<open>\<^verbatim>\<open>str(n)\<close> on a non-negative integer: its decimal digits, most significant first.\<close>

fun str_nat :: "nat \<Rightarrow> string" where
  "str_nat n = (if n < 10 then [digit n] else str_nat (n div 10) @ [digit (n mod 10)])"

declare str_nat.simps [simp del]

text \<open>\<^verbatim>\<open>str(i)\<close> on an integer: a minus sign in front of the digits of a negative one.\<close>

definition str :: "int \<Rightarrow> string" where
  "str i = (if i < 0 then CHR ''-'' # str_nat (nat (- i)) else str_nat (nat i))"

text \<open>\<^verbatim>\<open>sep.join(xs)\<close>.\<close>

fun join :: "string \<Rightarrow> string list \<Rightarrow> string" where
  "join sep [] = []"
| "join sep [x] = x"
| "join sep (x # y # ys) = x @ sep @ join sep (y # ys)"

text \<open>
  \<^verbatim>\<open>s.replace(old, new)\<close>: every occurrence of \<open>old\<close> is replaced, scanning from the left
  and resuming after each replaced occurrence; an empty \<open>old\<close> matches before every character
  and at the end.
\<close>

function replace :: "string \<Rightarrow> string \<Rightarrow> string \<Rightarrow> string" where
  "replace [] old new = (if old = [] then new else [])"
| "replace (c # cs) old new =
     (if old = [] then new @ c # replace cs old new
      else if prefix old (c # cs) then new @ replace (drop (length old) (c # cs)) old new
      else c # replace cs old new)"
  by pat_completeness auto
termination
  by (relation "measure (\<lambda>(s, old, new). length s)") (auto simp: neq_Nil_conv)

declare replace.simps [simp del]

subsection \<open>Module constants\<close>

definition COMMAND_PREFIX :: string where
  "COMMAND_PREFIX = ''ros2 run performance_test perf_test --communication ROS2''"

definition VALID_TOPICS :: "string list" where
  "VALID_TOPICS =
     [''Array1k'', ''Array4k'', ''Array16k'', ''Array32k'', ''Array60k'', ''Array1m'', ''Array2m'',
      ''Struct16'', ''Struct256'', ''Struct4k'', ''Struct32k'', ''PointCloud512k'',
      ''PointCloud1m'', ''PointCloud2m'', ''PointCloud4m'', ''PointCloud8m'', ''Range'',
      ''NavSatFix'', ''RadarDetection'', ''RadarTrack'']"

definition RELIABLE_FLAG :: string where
  "RELIABLE_FLAG = ''reliable''"

definition DURABILITY_FLAG :: string where
  "DURABILITY_FLAG = ''transient''"

definition SECURITY_FLAG :: string where
  "SECURITY_FLAG = ''with_security''"

subsection \<open>The Experiment value object\<close>

text \<open>
  The attributes \<^verbatim>\<open>Experiment.__init__\<close> sets. The three optional parameters are stored as
  they are passed: the generator passes strings, the empty string for a disabled flag, and the
  constructor only tests their truth value (a string is true when it is not empty).
\<close>

record experiment_t =
  topic :: string
  rate :: int
  num_publishers :: int
  num_subscribers :: int
  reliability :: string
  durability :: string
  security :: string
  path :: string
  file_name :: string
  command :: string

text \<open>Lines 114 to 120: the tokens of the enabled flags, appended one test after the other.\<close>

definition optional_params :: "string \<Rightarrow> string \<Rightarrow> string \<Rightarrow> string list" where
  "optional_params rel dur sec =
     (let ps = [];
          ps = (if rel \<noteq> [] then ps @ [RELIABLE_FLAG] else ps);
          ps = (if dur \<noteq> [] then ps @ [DURABILITY_FLAG] else ps);
          ps = (if sec \<noteq> [] then ps @ [SECURITY_FLAG] else ps)
      in ps)"

text \<open>
  \<^verbatim>\<open>Experiment.__init__\<close>. Line 123 calls \<^verbatim>\<open>optional_filename.replace('with_', '')\<close> and
  drops the string it returns; Python strings are immutable, so \<open>optional_filename\<close> is
  the same afterwards. The binding \<open>dropped\<close> keeps that call in the model.
\<close>

definition Experiment ::
  "string \<Rightarrow> string \<Rightarrow> int \<Rightarrow> int \<Rightarrow> int \<Rightarrow> string \<Rightarrow> string \<Rightarrow> string \<Rightarrow> experiment_t" where
  "Experiment parent_path t r np ns rel dur sec =
     (let ps = optional_params rel dur sec;
          optional_filename = (if ps = [] then [] else join [] (map (\<lambda>x. ''_'' @ x) ps));
          dropped = replace optional_filename ''with_'' [];
          pth = parent_path @ ''/'' @ t @ optional_filename;
          fname = pth @ ''/topic'' @ t @ ''_rate'' @ str r @ ''_p'' @ str np @ ''_s''
                  @ str ns @ optional_filename @ ''.log'';
          cmd = COMMAND_PREFIX @ '' --topic '' @ t @ '' --rate '' @ str r @ '' -p''
                @ str np @ '' -s'' @ str ns
                @ (if ps = [] then [] else join '' '' (map (\<lambda>x. '' --'' @ x) ps))
                @ '' -l '' @ fname
      in \<lparr> topic = t, rate = r, num_publishers = np, num_subscribers = ns,
           reliability = rel, durability = dur, security = sec,
           path = pth, file_name = fname, command = cmd \<rparr>)"

subsection \<open>The permutation generator\<close>

text \<open>
  \<^verbatim>\<open>itertools.product(a, b, c, d, e, f, g)\<close> yields the tuples of the nested loops
  \<^verbatim>\<open>for x0 in a: for x1 in b: ...\<close>, the rightmost iterable advancing fastest.
\<close>

definition product7 ::
  "'a list \<Rightarrow> 'b list \<Rightarrow> 'c list \<Rightarrow> 'd list \<Rightarrow> 'e list \<Rightarrow> 'f list \<Rightarrow> 'g list
     \<Rightarrow> ('a \<times> 'b \<times> 'c \<times> 'd \<times> 'e \<times> 'f \<times> 'g) list" where
  "product7 as bs cs ds es fs gs =
     [(a, b, c, d, e, f, g). a \<leftarrow> as, b \<leftarrow> bs, c \<leftarrow> cs, d \<leftarrow> ds, e \<leftarrow> es, f \<leftarrow> fs, g \<leftarrow> gs]"

definition generate_experiment_permutations ::
  "string \<Rightarrow> string list \<Rightarrow> int list \<Rightarrow> int list \<Rightarrow> int list \<Rightarrow> bool \<Rightarrow> bool \<Rightarrow> bool
     \<Rightarrow> experiment_t list" where
  "generate_experiment_permutations parent_path topics rates num_pubs num_subs rel dur sec =
     (let r = (if rel then [[]] @ [RELIABLE_FLAG] else [[]]);
          d = (if dur then [[]] @ [DURABILITY_FLAG] else [[]]);
          s = (if sec then [[]] @ [SECURITY_FLAG] else [[]]);
          permutations = product7 topics rates num_pubs num_subs r d s
      in map (\<lambda>(p0, p1, p2, p3, p4, p5, p6). Experiment parent_path p0 p1 p2 p3 p4 p5 p6)
           permutations)"

subsection \<open>The operating system\<close>

text \<open>
  What the script does to its surroundings is recorded in a \<open>world\<close>: the directories that
  exist, every argument handed to \<^verbatim>\<open>subprocess.Popen\<close> (oldest first), the pid the next
  child receives, the pids that were sent SIGKILL through a handle, the lines printed and the
  lines written to the run log. \<open>protected\<close> lists the pids to which this process may not
  deliver a signal, \<open>missing\<close> the program names that are not found on the search path.
\<close>

datatype popen_args = Shell string | Argv "string list"

datatype process = Process (pid: nat)

datatype error =
  ParserError string | PermissionError nat | FileNotFoundError string | IndexError

datatype outcome = Returned | Raised error

record world =
  dirs :: "string list"
  spawned :: "popen_args list"
  next_pid :: nat
  killed :: "nat list"
  protected :: "nat list"
  stdout :: "string list"
  log_lines :: "string list"
  missing :: "string list"

definition print :: "string \<Rightarrow> world \<Rightarrow> world" where
  "print line w = w\<lparr>stdout := stdout w @ [line]\<rparr>"

text \<open>\<^verbatim>\<open>logging.info(e)\<close> formats \<^verbatim>\<open>str(e)\<close>, the command; the time stamp is left out.\<close>

definition logging_info :: "string \<Rightarrow> world \<Rightarrow> world" where
  "logging_info line w = w\<lparr>log_lines := log_lines w @ [line]\<rparr>"

definition path_exists :: "string \<Rightarrow> world \<Rightarrow> bool" where
  "path_exists p w = (p \<in> set (dirs w))"

definition makedirs :: "string \<Rightarrow> world \<Rightarrow> world" where
  "makedirs p w = w\<lparr>dirs := dirs w @ [p]\<rparr>"

text \<open>
  \<^verbatim>\<open>subprocess.Popen(args)\<close> starts a child and returns its handle at once. Given a
  list, it executes the program named by the first element and raises
  \<^verbatim>\<open>FileNotFoundError\<close> in the caller when that program is not found (an empty list raises
  \<^verbatim>\<open>IndexError\<close>); nothing is started then. Given a string with \<^verbatim>\<open>shell=True\<close>, it
  executes \<^verbatim>\<open>/bin/sh -c\<close>, which is taken to exist: a command the shell cannot run shows
  in the exit status of the child, which the script never reads.
\<close>

definition started :: "popen_args \<Rightarrow> world \<Rightarrow> (error + process) \<times> world" where
  "started args w =
     (Inr (Process (next_pid w)), w\<lparr>spawned := spawned w @ [args], next_pid := next_pid w + 1\<rparr>)"

fun Popen :: "popen_args \<Rightarrow> world \<Rightarrow> (error + process) \<times> world" where
  "Popen (Shell cmd) w = started (Shell cmd) w"
| "Popen (Argv []) w = (Inl IndexError, w)"
| "Popen (Argv (prog # args)) w =
     (if prog \<in> set (missing w) then (Inl (FileNotFoundError prog), w)
      else started (Argv (prog # args)) w)"

text \<open>
  \<^verbatim>\<open>p.kill()\<close> sends SIGKILL with \<^verbatim>\<open>os.kill(p.pid, SIGKILL)\<close>, which raises an
  \<^verbatim>\<open>OSError\<close> (a \<^verbatim>\<open>PermissionError\<close>) when the signal may not be delivered.
\<close>

definition Popen_kill :: "process \<Rightarrow> world \<Rightarrow> outcome \<times> world" where
  "Popen_kill p w =
     (if pid p \<in> set (protected w) then (Raised (PermissionError (pid p)), w)
      else (Returned, w\<lparr>killed := killed w @ [pid p]\<rparr>))"

subsection \<open>Running one experiment\<close>

text \<open>\<^verbatim>\<open>Experiment.run\<close>: print, create the log directory when it is missing, start the command.\<close>

definition Experiment_run :: "experiment_t \<Rightarrow> world \<Rightarrow> (error + process) \<times> world" where
  "Experiment_run e w =
     (let w = print (''running '' @ command e) w;
          w = (if \<not> path_exists (path e) w then makedirs (path e) w else w)
      in Popen (Shell (command e)) w)"

subsection \<open>The ExperimentRunner\<close>

record runner =
  processes :: "process list"
  number_tests_executed :: int
  experiment_list :: "experiment_t list"
  log_system_stats :: bool

text \<open>
  \<^verbatim>\<open>ExperimentRunner.__init__\<close>: the fields, and the parent directory created when missing.
  \<^verbatim>\<open>logging.basicConfig\<close> opens the run log with mode \<^verbatim>\<open>'w'\<close>, which empties it.
\<close>

definition ExperimentRunner :: "experiment_t list \<Rightarrow> string \<Rightarrow> bool \<Rightarrow> world \<Rightarrow> runner \<times> world" where
  "ExperimentRunner es parent_path stats w =
     (let self = \<lparr> processes = [], number_tests_executed = 0, experiment_list = es,
                    log_system_stats = stats \<rparr>;
          w = (if \<not> path_exists parent_path w then makedirs parent_path w else w);
          w = w\<lparr>log_lines := []\<rparr>
      in (self, w))"

definition get_number_of_experiments :: "runner \<Rightarrow> nat" where
  "get_number_of_experiments self = length (experiment_list self)"

definition has_commands :: "runner \<Rightarrow> bool" where
  "has_commands self = (length (experiment_list self) > 0)"

text \<open>
  \<^verbatim>\<open>ExperimentRunner.run\<close>. \<^verbatim>\<open>pop(0)\<close> is guarded by \<open>has_commands\<close>, so the queue has a
  head where it is taken. Nothing catches what a \<^verbatim>\<open>Popen\<close> call raises: the exception leaves
  \<open>run\<close> with the runner and the world as they are at that line, the head already popped
  and logged. The one-second \<^verbatim>\<open>time.sleep\<close> at the end changes no state.
\<close>

definition run :: "runner \<Rightarrow> world \<Rightarrow> outcome \<times> runner \<times> world" where
  "run self w =
     (if has_commands self then
        (let e = hd (experiment_list self);
             self = self\<lparr>experiment_list := tl (experiment_list self)\<rparr>;
             w = logging_info (command e) w
         in case (if log_system_stats self then
                    (let w = print ''Logging system stats'' w;
                         fname = replace (replace (file_name e) ''topic'' ''system_info_topic'')
                                   ''.log'' ''.csv'';
                         w = print fname w
                     in case Popen (Argv [''python'', ''log_system_stats.py'', ''-l'', fname]) w of
                          (Inl err, w) \<Rightarrow> (Raised err, self, w)
                        | (Inr p, w) \<Rightarrow> (Returned, self\<lparr>processes := processes self @ [p]\<rparr>, w))
                  else (Returned, self, w)) of
              (Raised err, self, w) \<Rightarrow> (Raised err, self, w)
            | (Returned, self, w) \<Rightarrow>
                (case Experiment_run e w of
                   (Inl err, w) \<Rightarrow> (Raised err, self, w)
                 | (Inr p, w) \<Rightarrow>
                     (let self = self\<lparr>processes := processes self @ [p]\<rparr>;
                          self = self\<lparr>number_tests_executed := number_tests_executed self + 1\<rparr>
                      in (Returned, self, w))))
      else (Returned, self, print ''No more commands to run'' w))"

text \<open>
  The loop of \<^verbatim>\<open>ExperimentRunner.kill\<close> over the registry: kill through the handle, then
  start \<^verbatim>\<open>kill -9 <pid>\<close> in a shell. Nothing catches what \<^verbatim>\<open>p.kill()\<close> raises, so
  the loop ends there and the exception leaves \<^verbatim>\<open>kill\<close>.
\<close>

fun kill_loop :: "process list \<Rightarrow> world \<Rightarrow> outcome \<times> world" where
  "kill_loop [] w = (Returned, w)"
| "kill_loop (p # ps) w =
     (case Popen_kill p w of
        (Raised err, w) \<Rightarrow> (Raised err, w)
      | (Returned, w) \<Rightarrow>
          (case Popen (Shell (''kill -9 '' @ str (int (pid p)))) w of
             (Inl err, w) \<Rightarrow> (Raised err, w)
           | (Inr q, w) \<Rightarrow> kill_loop ps w))"

text \<open>
  \<^verbatim>\<open>ExperimentRunner.kill\<close>: the registry is emptied and \<^verbatim>\<open>pkill -9 perf_test\<close> started
  after the loop, on the path where the loop has come to its end.
\<close>

definition kill :: "runner \<Rightarrow> world \<Rightarrow> outcome \<times> runner \<times> world" where
  "kill self w =
     (case kill_loop (processes self) w of
        (Raised err, w) \<Rightarrow> (Raised err, self, w)
      | (Returned, w) \<Rightarrow>
          (let self = self\<lparr>processes := []\<rparr>
           in case Popen (Shell ''pkill -9 perf_test'') w of
                (Inl err, w) \<Rightarrow> (Raised err, self, w)
              | (Inr q, w) \<Rightarrow> (Returned, self, w)))"

subsection \<open>Input validation in main\<close>

text \<open>
  The parsed command line. \<open>a_period\<close> is the value of \<^verbatim>\<open>float(parsed_arguments.period)\<close>,
  taken as a real number; the other fields are as argparse delivers them.
\<close>

record arguments =
  a_period :: real
  a_topics :: "string list"
  a_rate :: "int list"
  a_publishers :: "int list"
  a_subscribers :: "int list"
  a_reliability :: bool
  a_durability :: bool
  a_security :: bool
  a_system_stats :: bool

text \<open>
  Each of the three loops at lines 277 to 295 looks at the first element of a sorted list:
  it calls \<^verbatim>\<open>parser.error\<close>, which reports the message and exits, or breaks.
\<close>

fun check_rate :: "int list \<Rightarrow> error + unit" where
  "check_rate [] = Inr ()"
| "check_rate (i # rest) =
     (if i \<le> 0 then Inl (ParserError ''rate must be greater than 0'') else Inr ())"

fun check_publishers :: "int list \<Rightarrow> error + unit" where
  "check_publishers [] = Inr ()"
| "check_publishers (i # rest) =
     (if i \<le> 0 then Inl (ParserError ''publishers must be greater than 0'') else Inr ())"

fun check_subscribers :: "int list \<Rightarrow> error + unit" where
  "check_subscribers [] = Inr ()"
| "check_subscribers (i # rest) =
     (if i < 0 then Inl (ParserError ''subscribers must be greater than or equal to 0'')
      else Inr ())"

text \<open>
  Lines 275 to 300 of \<^verbatim>\<open>main\<close>: the sorted rates, publisher counts and subscriber counts
  and the timer period on success, the parser error otherwise. One second is added to the
  period before it is tested.
\<close>

definition validate :: "arguments \<Rightarrow> error + (int list \<times> int list \<times> int list \<times> real)" where
  "validate a =
     (let rate = sort (a_rate a) in
      case check_rate rate of Inl err \<Rightarrow> Inl err | Inr u \<Rightarrow>
     (let publishers = sort (a_publishers a) in
      case check_publishers publishers of Inl err \<Rightarrow> Inl err | Inr u \<Rightarrow>
     (let subscribers = sort (a_subscribers a) in
      case check_subscribers subscribers of Inl err \<Rightarrow> Inl err | Inr u \<Rightarrow>
     (let period = a_period a + 1.0 in
      if period \<le> 0 then Inl (ParserError ''period must be greater than 0'')
      else Inr (rate, publishers, subscribers, period)))))"

text \<open>
  \<^verbatim>\<open>main\<close> up to the construction of the runner (lines 275 to 312), \<open>date\<close> being the
  string \<^verbatim>\<open>get_date()\<close> returns: nothing is generated and no runner exists when validation
  fails.
\<close>

definition main :: "arguments \<Rightarrow> string \<Rightarrow> world \<Rightarrow> error + (runner \<times> real \<times> world)" where
  "main a date w =
     (case validate a of
        Inl err \<Rightarrow> Inl err
      | Inr (rates, publishers, subscribers, period) \<Rightarrow>
          (let pth = ''experiment_'' @ date;
               e_list = generate_experiment_permutations pth (a_topics a) rates publishers
                          subscribers (a_reliability a) (a_durability a) (a_security a);
               (tests_to_run, w) = ExperimentRunner e_list pth (a_system_stats a) w
           in Inr (tests_to_run, period, w)))"

subsection \<open>The formats the specification gives\<close>

text \<open>
  The tokens of the flags that are set, in the fixed order reliability, durability,
  security; the suffix \<^verbatim>\<open>[_<flag>]*\<close> made of them; and the invocation string of the
  template \<^verbatim>\<open><prefix> --topic <topic> --rate <rate> -p<publishers> -s<subscribers>
  [--<flag> ...] -l <log-file-path>\<close>, one space between its parts.
\<close>

definition active_flags :: "bool \<Rightarrow> bool \<Rightarrow> bool \<Rightarrow> string list" where
  "active_flags fr fd fs =
     map snd (filter fst [(fr, RELIABLE_FLAG), (fd, DURABILITY_FLAG), (fs, SECURITY_FLAG)])"

definition flag_suffix :: "bool \<Rightarrow> bool \<Rightarrow> bool \<Rightarrow> string" where
  "flag_suffix fr fd fs = concat (map (\<lambda>f. ''_'' @ f) (active_flags fr fd fs))"

definition spec_command ::
  "string \<Rightarrow> int \<Rightarrow> int \<Rightarrow> int \<Rightarrow> bool \<Rightarrow> bool \<Rightarrow> bool \<Rightarrow> string \<Rightarrow> string" where
  "spec_command t r np ns fr fd fs log_file =
     COMMAND_PREFIX @ '' --topic '' @ t @ '' --rate '' @ str r @ '' -p'' @ str np
       @ '' -s'' @ str ns @ concat (map (\<lambda>f. '' --'' @ f) (active_flags fr fd fs))
       @ '' -l '' @ log_file"

text \<open>
  The name the sampler is to write to: the log file name of the Experiment with its
  \<^verbatim>\<open>topic\<close> segment replaced by \<^verbatim>\<open>system_info_topic\<close> and its extension \<^verbatim>\<open>.log\<close> by
  \<^verbatim>\<open>.csv\<close>, everything else as it is.
\<close>

definition sampler_file_name :: "string \<Rightarrow> string \<Rightarrow> int \<Rightarrow> int \<Rightarrow> int \<Rightarrow> bool \<Rightarrow> bool \<Rightarrow> bool \<Rightarrow> string" where
  "sampler_file_name base t r np ns fr fd fs =
     base @ ''/'' @ t @ flag_suffix fr fd fs @ ''/system_info_topic'' @ t @ ''_rate'' @ str r
       @ ''_p'' @ str np @ ''_s'' @ str ns @ flag_suffix fr fd fs @ ''.csv''"

subsection \<open>Reading a decimal back\<close>

text \<open>The inverse of \<open>str_nat\<close>, used to show that \<open>str\<close> is injective.\<close>

definition digit_value :: "char \<Rightarrow> nat" where
  "digit_value c = of_char c - 48"

definition parse_nat :: "string \<Rightarrow> nat" where
  "parse_nat s = foldl (\<lambda>acc c. 10 * acc + digit_value c) 0 s"

subsection \<open>Flag values and repeated runs\<close>

text \<open>
  The values an optional flag ranges over in the sweep, "disabled" first: one value when the
  flag is not enabled, two when it is. \<open>run_times n\<close> is \<open>n\<close> calls of \<open>run\<close> in a row, up to
  the first that raises. \<open>launches stats e\<close> is what one call of \<open>run\<close> is to start for the
  Experiment \<open>e\<close>: the sampler first when sampling is enabled, then the command of \<open>e\<close>.
\<close>

definition flag_values :: "bool \<Rightarrow> string \<Rightarrow> string list" where
  "flag_values enabled flag = (if enabled then [[], flag] else [[]])"


definition launches :: "bool \<Rightarrow> experiment_t \<Rightarrow> popen_args list" where
  "launches stats e =
     (if stats
      then [Argv [''python'', ''log_system_stats.py'', ''-l'',
                  replace (replace (file_name e) ''topic'' ''system_info_topic'') ''.log'' ''.csv'']]
      else [])
     @ [Shell (command e)]"

subsection \<open>A concrete world and runner for the examples\<close>

definition example_world :: world where
  "example_world = \<lparr> dirs = [], spawned = [], next_pid = 100, killed = [], protected = [],
                      stdout = [], log_lines = [], missing = [] \<rparr>"

definition example_runner :: "experiment_t list \<Rightarrow> bool \<Rightarrow> runner" where
  "example_runner es stats = \<lparr> processes = [], number_tests_executed = 0,
                                experiment_list = es, log_system_stats = stats \<rparr>"

subsection \<open>Counting the generated experiments\<close>

lemma length_concat_map_const:
  assumes "\<And>x. x \<in> set xs \<Longrightarrow> length (f x) = m"
  shows "length (concat (map f xs)) = length xs * m"
  using assms by (induction xs) simp_all

lemma length_product7:
  "length (product7 as bs cs ds es fs gs) =
     length as * length bs * length cs * length ds * length es * length fs * length gs"
  unfolding product7_def
  by (simp add: length_concat_map_const [where m = "length bs * length cs * length ds * length es * length fs * length gs"]
        length_concat_map_const [where m = "length cs * length ds * length es * length fs * length gs"]
        length_concat_map_const [where m = "length ds * length es * length fs * length gs"]
        length_concat_map_const [where m = "length es * length fs * length gs"]
        length_concat_map_const [where m = "length fs * length gs"]
        length_concat_map_const [where m = "length gs"])

lemma product7_nested:
  "product7 as bs cs ds es fs gs =
     List.product as (List.product bs (List.product cs (List.product ds
       (List.product es (List.product fs gs)))))"
  by (simp add: product7_def product_concat_map map_concat o_def)

lemma set_product7:
  "set (product7 as bs cs ds es fs gs) =
     set as \<times> set bs \<times> set cs \<times> set ds \<times> set es \<times> set fs \<times> set gs"
  by (simp only: product7_nested set_product)

lemma generate_as_product:
  "generate_experiment_permutations base T R P S fr fd fs =
     map (\<lambda>(t, r, p, s, x, y, z). Experiment base t r p s x y z)
       (product7 T R P S (flag_values fr RELIABLE_FLAG) (flag_values fd DURABILITY_FLAG)
          (flag_values fs SECURITY_FLAG))"
  by (simp add: generate_experiment_permutations_def flag_values_def)

lemma Experiment_flags:
  "reliability (Experiment base t r np ns rel dur sec) = rel"
  "durability (Experiment base t r np ns rel dur sec) = dur"
  "security (Experiment base t r np ns rel dur sec) = sec"
  by (simp_all add: Experiment_def Let_def)

lemma generated_member:
  assumes "t \<in> set T" "r \<in> set R" "p \<in> set P" "s \<in> set S"
    and "x \<in> set (flag_values fr RELIABLE_FLAG)" and "y \<in> set (flag_values fd DURABILITY_FLAG)"
    and "z \<in> set (flag_values fs SECURITY_FLAG)"
  shows "Experiment base t r p s x y z \<in> set (generate_experiment_permutations base T R P S fr fd fs)"
  unfolding generate_as_product set_map set_product7 using assms by force

lemma generated_flags_only:
  assumes "e \<in> set (generate_experiment_permutations base T R P S fr fd fs)"
  shows "reliability e \<in> set (flag_values fr RELIABLE_FLAG)
    \<and> durability e \<in> set (flag_values fd DURABILITY_FLAG)
    \<and> security e \<in> set (flag_values fs SECURITY_FLAG)"
  using assms unfolding generate_as_product set_map set_product7
  by (auto simp: Experiment_flags)

lemma generated_flag_values:
  assumes "T \<noteq> []" and "R \<noteq> []" and "P \<noteq> []" and "S \<noteq> []"
  shows "reliability ` set (generate_experiment_permutations base T R P S fr fd fs) =
           set (flag_values fr RELIABLE_FLAG)"
    and "durability ` set (generate_experiment_permutations base T R P S fr fd fs) =
           set (flag_values fd DURABILITY_FLAG)"
    and "security ` set (generate_experiment_permutations base T R P S fr fd fs) =
           set (flag_values fs SECURITY_FLAG)"
proof -
  let ?rv = "flag_values fr RELIABLE_FLAG" and ?dv = "flag_values fd DURABILITY_FLAG"
    and ?sv = "flag_values fs SECURITY_FLAG"
  let ?gen = "generate_experiment_permutations base T R P S fr fd fs"
  from assms have el: "hd T \<in> set T" "hd R \<in> set R" "hd P \<in> set P" "hd S \<in> set S"
    by simp_all
  have nil: "[] \<in> set ?rv" "[] \<in> set ?dv" "[] \<in> set ?sv" by (simp_all add: flag_values_def)
  show "reliability ` set ?gen = set ?rv"
  proof (intro equalityI subsetI)
    fix x assume "x \<in> reliability ` set ?gen"
    with generated_flags_only show "x \<in> set ?rv" by blast
  next
    fix x assume "x \<in> set ?rv"
    from generated_member [OF el this nil(2,3)]
    have "reliability (Experiment base (hd T) (hd R) (hd P) (hd S) x [] []) \<in>
        reliability ` set ?gen" by (rule imageI)
    then show "x \<in> reliability ` set ?gen" by (simp add: Experiment_flags)
  qed
  show "durability ` set ?gen = set ?dv"
  proof (intro equalityI subsetI)
    fix y assume "y \<in> durability ` set ?gen"
    with generated_flags_only show "y \<in> set ?dv" by blast
  next
    fix y assume "y \<in> set ?dv"
    from generated_member [OF el nil(1) this nil(3)]
    have "durability (Experiment base (hd T) (hd R) (hd P) (hd S) [] y []) \<in>
        durability ` set ?gen" by (rule imageI)
    then show "y \<in> durability ` set ?gen" by (simp add: Experiment_flags)
  qed
  show "security ` set ?gen = set ?sv"
  proof (intro equalityI subsetI)
    fix z assume "z \<in> security ` set ?gen"
    with generated_flags_only show "z \<in> set ?sv" by blast
  next
    fix z assume "z \<in> set ?sv"
    from generated_member [OF el nil(1,2) this]
    have "security (Experiment base (hd T) (hd R) (hd P) (hd S) [] [] z) \<in>
        security ` set ?gen" by (rule imageI)
    then show "z \<in> security ` set ?gen" by (simp add: Experiment_flags)
  qed
qed

text \<open>
  Claim C1. For all lists of topics, rates, publisher counts and subscriber counts and all
  three flag booleans, the generator returns exactly
  \<open>|T| * |R| * |P| * |S| * (1 + fr) * (1 + fd) * (1 + fs)\<close> experiments, a boolean counting
  as 1 when true and 0 when false. The list is the product of the four input lists and the
  three lists of flag values, where a flag that is off contributes the single value
  "disabled" (the empty string) and a flag that is on the two values "disabled" and
  "enabled" (its token), in this order. So when none of the four input lists is empty, the
  values a flag takes among the generated experiments are the empty string alone when its
  boolean is false, and the empty string and its token when it is true.
\<close>

theorem generate_experiment_permutations_length:
  "length (generate_experiment_permutations parent_path T R P S fr fd fs) =
     length T * length R * length P * length S
       * (1 + of_bool fr) * (1 + of_bool fd) * (1 + of_bool fs)
   \<and> generate_experiment_permutations parent_path T R P S fr fd fs =
       map (\<lambda>(t, r, p, s, x, y, z). Experiment parent_path t r p s x y z)
         (product7 T R P S (if fr then [[], RELIABLE_FLAG] else [[]])
            (if fd then [[], DURABILITY_FLAG] else [[]])
            (if fs then [[], SECURITY_FLAG] else [[]]))
   \<and> (T \<noteq> [] \<and> R \<noteq> [] \<and> P \<noteq> [] \<and> S \<noteq> [] \<longrightarrow>
        reliability ` set (generate_experiment_permutations parent_path T R P S fr fd fs) =
          (if fr then {[], RELIABLE_FLAG} else {[]})
      \<and> durability ` set (generate_experiment_permutations parent_path T R P S fr fd fs) =
          (if fd then {[], DURABILITY_FLAG} else {[]})
      \<and> security ` set (generate_experiment_permutations parent_path T R P S fr fd fs) =
          (if fs then {[], SECURITY_FLAG} else {[]}))"
proof (intro conjI impI)
  show "length (generate_experiment_permutations parent_path T R P S fr fd fs) =
     length T * length R * length P * length S
       * (1 + of_bool fr) * (1 + of_bool fd) * (1 + of_bool fs)"
    by (simp add: generate_experiment_permutations_def length_product7)
  show "generate_experiment_permutations parent_path T R P S fr fd fs =
       map (\<lambda>(t, r, p, s, x, y, z). Experiment parent_path t r p s x y z)
         (product7 T R P S (if fr then [[], RELIABLE_FLAG] else [[]])
            (if fd then [[], DURABILITY_FLAG] else [[]])
            (if fs then [[], SECURITY_FLAG] else [[]]))"
    by (simp add: generate_experiment_permutations_def)
next
  assume "T \<noteq> [] \<and> R \<noteq> [] \<and> P \<noteq> [] \<and> S \<noteq> []"
  then have ne: "T \<noteq> []" "R \<noteq> []" "P \<noteq> []" "S \<noteq> []" by simp_all
  from generated_flag_values(1) [OF ne, of parent_path fr fd fs]
  show "reliability ` set (generate_experiment_permutations parent_path T R P S fr fd fs) =
          (if fr then {[], RELIABLE_FLAG} else {[]})"
    by (simp add: flag_values_def)
  from generated_flag_values(2) [OF ne, of parent_path fr fd fs]
  show "durability ` set (generate_experiment_permutations parent_path T R P S fr fd fs) =
          (if fd then {[], DURABILITY_FLAG} else {[]})"
    by (simp add: flag_values_def)
  from generated_flag_values(3) [OF ne, of parent_path fr fd fs]
  show "security ` set (generate_experiment_permutations parent_path T R P S fr fd fs) =
          (if fs then {[], SECURITY_FLAG} else {[]})"
    by (simp add: flag_values_def)
qed

theorem generate_experiment_permutations_length_witness:
  "length (generate_experiment_permutations ''base'' [''Struct256'', ''Range''] [7, 8, 9] [1] [5]
      True False True) = 24
   \<and> reliability ` set (generate_experiment_permutations ''base'' [''Struct256'', ''Range'']
      [7, 8, 9] [1] [5] True False True) = {[], ''reliable''}
   \<and> durability ` set (generate_experiment_permutations ''base'' [''Struct256'', ''Range'']
      [7, 8, 9] [1] [5] True False True) = {[]}
   \<and> security ` set (generate_experiment_permutations ''base'' [''Struct256'', ''Range'']
      [7, 8, 9] [1] [5] True False True) = {[], ''with_security''}"
proof -
  note inst = generate_experiment_permutations_length
    [of "''base''" "[''Struct256'', ''Range'']" "[7, 8, 9]" "[1]" "[5]" True False True]
  from inst [THEN conjunct1]
  have len: "length (generate_experiment_permutations ''base'' [''Struct256'', ''Range'']
      [7, 8, 9] [1] [5] True False True) = 24" by simp
  have ne: "[''Struct256'', ''Range''] \<noteq> [] \<and> [7, 8, 9 :: int] \<noteq> [] \<and> [1 :: int] \<noteq> []
      \<and> [5 :: int] \<noteq> []" by simp
  from inst [THEN conjunct2, THEN conjunct2, THEN mp, OF ne] len
  show ?thesis by (simp add: RELIABLE_FLAG_def SECURITY_FLAG_def)
qed

subsection \<open>The strings an Experiment derives\<close>

lemma optional_params_active:
  "optional_params rel dur sec = active_flags (rel \<noteq> []) (dur \<noteq> []) (sec \<noteq> [])"
  by (simp add: optional_params_def active_flags_def)

lemma join_empty_sep: "join [] xs = concat xs"
  by (induction xs rule: induct_list012) simp_all

lemma if_join: "(if ps = [] then [] else join sep (map f ps)) = join sep (map f ps)"
  by simp

lemma optional_filename_suffix:
  "join [] (map (\<lambda>x. ''_'' @ x) (optional_params rel dur sec))
     = flag_suffix (rel \<noteq> []) (dur \<noteq> []) (sec \<noteq> [])"
  by (simp only: join_empty_sep flag_suffix_def optional_params_active)

lemma path_Experiment:
  "path (Experiment base t r np ns rel dur sec) =
     base @ ''/'' @ t @ flag_suffix (rel \<noteq> []) (dur \<noteq> []) (sec \<noteq> [])"
  unfolding Experiment_def Let_def if_join optional_filename_suffix
  by (simp only: experiment_t.simps)

lemma file_name_Experiment:
  "file_name (Experiment base t r np ns rel dur sec) =
     (base @ ''/'' @ t @ flag_suffix (rel \<noteq> []) (dur \<noteq> []) (sec \<noteq> []))
       @ ''/topic'' @ t @ ''_rate'' @ str r @ ''_p'' @ str np @ ''_s'' @ str ns
       @ flag_suffix (rel \<noteq> []) (dur \<noteq> []) (sec \<noteq> []) @ ''.log''"
  unfolding Experiment_def Let_def if_join optional_filename_suffix
  by (simp only: experiment_t.simps)

lemma command_Experiment:
  "command (Experiment base t r np ns rel dur sec) =
     COMMAND_PREFIX @ '' --topic '' @ t @ '' --rate '' @ str r @ '' -p'' @ str np @ '' -s'' @ str ns
       @ join '' '' (map (\<lambda>f. '' --'' @ f) (active_flags (rel \<noteq> []) (dur \<noteq> []) (sec \<noteq> [])))
       @ '' -l '' @ file_name (Experiment base t r np ns rel dur sec)"
  unfolding Experiment_def Let_def if_join optional_params_active
  by (simp only: experiment_t.simps)

lemmas flag_defs = RELIABLE_FLAG_def DURABILITY_FLAG_def SECURITY_FLAG_def

lemma str_digit: "0 \<le> i \<Longrightarrow> i < 10 \<Longrightarrow> str i = [digit (nat i)]"
  by (simp add: str_def str_nat.simps)

text \<open>
  Claim C6. The directory path of every Experiment is \<^verbatim>\<open>{base}/{topic}[_<flag>]*\<close> and its
  log file path is
  \<^verbatim>\<open>{base}/{topic}[_<flag>]*/topic{topic}_rate{rate}_p{publishers}_s{subscribers}[_<flag>]*.log\<close>,
  the suffix listing the flags that are set, in the order reliability, durability, security,
  each after an underscore.
\<close>

theorem Experiment_path_and_file_name:
  "path (Experiment base t r np ns rel dur sec) =
     base @ ''/'' @ t @ flag_suffix (rel \<noteq> []) (dur \<noteq> []) (sec \<noteq> [])
   \<and> file_name (Experiment base t r np ns rel dur sec) =
     base @ ''/'' @ t @ flag_suffix (rel \<noteq> []) (dur \<noteq> []) (sec \<noteq> [])
       @ ''/topic'' @ t @ ''_rate'' @ str r @ ''_p'' @ str np @ ''_s'' @ str ns
       @ flag_suffix (rel \<noteq> []) (dur \<noteq> []) (sec \<noteq> []) @ ''.log''"
  by (simp only: path_Experiment file_name_Experiment append_assoc simp_thms)

theorem Experiment_path_and_file_name_witness:
  "path (Experiment ''experiment_2019'' ''Struct256'' 7 1 5 ''reliable'' ''transient'' []) =
     ''experiment_2019/Struct256_reliable_transient''
   \<and> file_name (Experiment ''experiment_2019'' ''Struct256'' 7 1 5 ''reliable'' ''transient'' []) =
     ''experiment_2019/Struct256_reliable_transient/topicStruct256_rate7_p1_s5_reliable_transient.log''"
  using Experiment_path_and_file_name
    [of "''experiment_2019''" "''Struct256''" 7 1 5 "''reliable''" "''transient''" "[]"]
  by (simp add: flag_suffix_def active_flags_def flag_defs str_digit digit_def)

text \<open>
  Claim C10. When the security flag is set, the token in the directory path and in the log
  file name is the whole of \<^verbatim>\<open>_with_security\<close>: the string that
  \<^verbatim>\<open>replace('with_', '')\<close> returns, which would end in \<^verbatim>\<open>_security\<close>, is not the one the
  names are built from.
\<close>

theorem security_token_not_stripped:
  assumes "sec \<noteq> []"
  shows "path (Experiment base t r np ns rel dur sec) =
           base @ ''/'' @ t @ flag_suffix (rel \<noteq> []) (dur \<noteq> []) False @ ''_with_security''
       \<and> file_name (Experiment base t r np ns rel dur sec) =
           path (Experiment base t r np ns rel dur sec) @ ''/topic'' @ t @ ''_rate'' @ str r
             @ ''_p'' @ str np @ ''_s'' @ str ns
             @ flag_suffix (rel \<noteq> []) (dur \<noteq> []) False @ ''_with_security'' @ ''.log''
       \<and> replace (flag_suffix (rel \<noteq> []) (dur \<noteq> []) True) ''with_'' [] =
           flag_suffix (rel \<noteq> []) (dur \<noteq> []) False @ ''_security''"
proof -
  have sfx: "flag_suffix a b True = flag_suffix a b False @ ''_with_security''" for a b
    by (simp add: flag_suffix_def active_flags_def flag_defs)
  have dropped: "replace (flag_suffix a b True) ''with_'' [] = flag_suffix a b False @ ''_security''"
    for a b
    by (cases a; cases b) (simp_all add: flag_suffix_def active_flags_def flag_defs replace.simps)
  have names: "path (Experiment base t r np ns rel dur sec) =
           base @ ''/'' @ t @ flag_suffix (rel \<noteq> []) (dur \<noteq> []) False @ ''_with_security''
       \<and> file_name (Experiment base t r np ns rel dur sec) =
           path (Experiment base t r np ns rel dur sec) @ ''/topic'' @ t @ ''_rate'' @ str r
             @ ''_p'' @ str np @ ''_s'' @ str ns
             @ flag_suffix (rel \<noteq> []) (dur \<noteq> []) False @ ''_with_security'' @ ''.log''"
    using assms by (simp add: path_Experiment file_name_Experiment sfx)
  from names dropped show ?thesis by (intro conjI) (simp_all only:)
qed

theorem security_token_not_stripped_witness:
  "path (Experiment ''base'' ''Range'' 10 1 2 [] [] ''with_security'') =
     ''base/Range_with_security''
   \<and> file_name (Experiment ''base'' ''Range'' 10 1 2 [] [] ''with_security'') =
     ''base/Range_with_security/topicRange_rate10_p1_s2_with_security.log''
   \<and> replace ''_with_security'' ''with_'' [] = ''_security''"
proof -
  have h: "''with_security'' \<noteq> []" by simp
  show ?thesis
    using security_token_not_stripped [OF h, of "''base''" "''Range''" 10 1 2 "[]" "[]"]
    by (simp add: flag_suffix_def active_flags_def flag_defs str_def str_nat.simps digit_def)
qed

text \<open>
  Read with one space between its parts, the template of the invocation string is
  \<open>spec_command\<close>. With two flags set the command of the Experiment is another string:
  each flag is written \<^verbatim>\<open> --<flag>\<close>, with its own leading space, and the flags are then
  joined with one more space, so two spaces stand between \<^verbatim>\<open>--reliable\<close> and
  \<^verbatim>\<open>--transient\<close>, as in the example of the module's docstring.
\<close>

theorem command_two_flags_counterexample:
  "command (Experiment ''base'' ''Struct256'' 7 1 5 ''reliable'' ''transient'' []) \<noteq>
     spec_command ''Struct256'' 7 1 5 True True False
       (file_name (Experiment ''base'' ''Struct256'' 7 1 5 ''reliable'' ''transient'' []))"
  by (simp add: command_Experiment spec_command_def active_flags_def flag_defs)

lemma generate_scenario:
  "generate_experiment_permutations base [''Struct256''] [7] [1] [5] True False False =
     [Experiment base ''Struct256'' 7 1 5 [] [] [],
      Experiment base ''Struct256'' 7 1 5 ''reliable'' [] []]"
  by (simp add: generate_experiment_permutations_def product7_def flag_defs)

lemma join_at_most_one: "length xs \<le> 1 \<Longrightarrow> join sep xs = concat xs"
  by (cases xs; cases "tl xs") auto

text \<open>
  Claim C5, as amended. The invocation string of every Experiment is the prefix,
  \<^verbatim>\<open> --topic <topic> --rate <rate> -p<publishers> -s<subscribers>\<close>, the flags that are
  set in the order reliability, durability, security, each written \<^verbatim>\<open> --<flag>\<close> and joined
  with one further space, and \<^verbatim>\<open> -l <log-file-path>\<close>. With at most one flag set this is
  the template with one space between its parts. For topics \<^verbatim>\<open>["Struct256"]\<close>, rates
  \<^verbatim>\<open>[7]\<close>, publishers \<^verbatim>\<open>[1]\<close>, subscribers \<^verbatim>\<open>[5]\<close> and reliability alone enabled, the
  generator returns two Experiments, the first without and the second with the reliability
  flag, with the two commands of the scenario.
\<close>

theorem Experiment_command_format:
  "command (Experiment base t r np ns rel dur sec) =
     COMMAND_PREFIX @ '' --topic '' @ t @ '' --rate '' @ str r @ '' -p'' @ str np
       @ '' -s'' @ str ns
       @ join '' '' (map (\<lambda>f. '' --'' @ f) (active_flags (rel \<noteq> []) (dur \<noteq> []) (sec \<noteq> [])))
       @ '' -l '' @ file_name (Experiment base t r np ns rel dur sec)
   \<and> (length (active_flags (rel \<noteq> []) (dur \<noteq> []) (sec \<noteq> [])) \<le> 1 \<longrightarrow>
        command (Experiment base t r np ns rel dur sec) =
          spec_command t r np ns (rel \<noteq> []) (dur \<noteq> []) (sec \<noteq> [])
            (file_name (Experiment base t r np ns rel dur sec)))
   \<and> generate_experiment_permutations base [''Struct256''] [7] [1] [5] True False False =
        [Experiment base ''Struct256'' 7 1 5 [] [] [],
         Experiment base ''Struct256'' 7 1 5 ''reliable'' [] []]
   \<and> command (Experiment base ''Struct256'' 7 1 5 [] [] []) =
        COMMAND_PREFIX @ '' --topic Struct256 --rate 7 -p1 -s5 -l '' @ base
          @ ''/Struct256/topicStruct256_rate7_p1_s5.log''
   \<and> command (Experiment base ''Struct256'' 7 1 5 ''reliable'' [] []) =
        COMMAND_PREFIX @ '' --topic Struct256 --rate 7 -p1 -s5 --reliable -l '' @ base
          @ ''/Struct256_reliable/topicStruct256_rate7_p1_s5_reliable.log''"
proof (intro conjI impI)
  show "command (Experiment base t r np ns rel dur sec) =
     COMMAND_PREFIX @ '' --topic '' @ t @ '' --rate '' @ str r @ '' -p'' @ str np
       @ '' -s'' @ str ns
       @ join '' '' (map (\<lambda>f. '' --'' @ f) (active_flags (rel \<noteq> []) (dur \<noteq> []) (sec \<noteq> [])))
       @ '' -l '' @ file_name (Experiment base t r np ns rel dur sec)"
    by (rule command_Experiment)
next
  assume "length (active_flags (rel \<noteq> []) (dur \<noteq> []) (sec \<noteq> [])) \<le> 1"
  then have "join '' '' (map (\<lambda>f. '' --'' @ f) (active_flags (rel \<noteq> []) (dur \<noteq> []) (sec \<noteq> [])))
      = concat (map (\<lambda>f. '' --'' @ f) (active_flags (rel \<noteq> []) (dur \<noteq> []) (sec \<noteq> [])))"
    by (intro join_at_most_one) simp
  then show "command (Experiment base t r np ns rel dur sec) =
          spec_command t r np ns (rel \<noteq> []) (dur \<noteq> []) (sec \<noteq> [])
            (file_name (Experiment base t r np ns rel dur sec))"
    by (simp only: command_Experiment spec_command_def)
next
  show "generate_experiment_permutations base [''Struct256''] [7] [1] [5] True False False =
        [Experiment base ''Struct256'' 7 1 5 [] [] [],
         Experiment base ''Struct256'' 7 1 5 ''reliable'' [] []]"
    by (rule generate_scenario)
next
  show "command (Experiment base ''Struct256'' 7 1 5 [] [] []) =
        COMMAND_PREFIX @ '' --topic Struct256 --rate 7 -p1 -s5 -l '' @ base
          @ ''/Struct256/topicStruct256_rate7_p1_s5.log''"
    by (simp add: command_Experiment file_name_Experiment flag_suffix_def active_flags_def
          str_digit digit_def)
next
  show "command (Experiment base ''Struct256'' 7 1 5 ''reliable'' [] []) =
        COMMAND_PREFIX @ '' --topic Struct256 --rate 7 -p1 -s5 --reliable -l '' @ base
          @ ''/Struct256_reliable/topicStruct256_rate7_p1_s5_reliable.log''"
    by (simp add: command_Experiment file_name_Experiment flag_suffix_def active_flags_def
          flag_defs str_digit digit_def)
qed

theorem Experiment_command_format_witness:
  "command (Experiment ''base'' ''Range'' 20 2 3 [] ''transient'' []) =
     ''ros2 run performance_test perf_test --communication ROS2 --topic Range --rate 20 -p2 -s3 --transient -l base/Range_transient/topicRange_rate20_p2_s3_transient.log''
   \<and> spec_command ''Range'' 20 2 3 False True False
        (file_name (Experiment ''base'' ''Range'' 20 2 3 [] ''transient'' [])) =
     ''ros2 run performance_test perf_test --communication ROS2 --topic Range --rate 20 -p2 -s3 --transient -l base/Range_transient/topicRange_rate20_p2_s3_transient.log''"
proof -
  have h: "length (active_flags ([] \<noteq> ([]::string)) (''transient'' \<noteq> []) ([] \<noteq> ([]::string))) \<le> 1"
    by (simp add: active_flags_def)
  have fn: "file_name (Experiment ''base'' ''Range'' 20 2 3 [] ''transient'' []) =
      ''base/Range_transient/topicRange_rate20_p2_s3_transient.log''"
    by (simp add: file_name_Experiment flag_suffix_def active_flags_def flag_defs str_def
          str_nat.simps digit_def)
  from Experiment_command_format [of "''base''" "''Range''" 20 2 3 "[]" "''transient''" "[]",
      THEN conjunct2, THEN conjunct1, THEN mp, OF h]
  have eq: "command (Experiment ''base'' ''Range'' 20 2 3 [] ''transient'' []) =
          spec_command ''Range'' 20 2 3 False True False
            (file_name (Experiment ''base'' ''Range'' 20 2 3 [] ''transient'' []))"
    by simp
  have "spec_command ''Range'' 20 2 3 False True False
        (file_name (Experiment ''base'' ''Range'' 20 2 3 [] ''transient'' [])) =
     ''ros2 run performance_test perf_test --communication ROS2 --topic Range --rate 20 -p2 -s3 --transient -l base/Range_transient/topicRange_rate20_p2_s3_transient.log''"
    by (simp add: fn spec_command_def COMMAND_PREFIX_def active_flags_def flag_defs str_def
          str_nat.simps digit_def)
  with eq show ?thesis by simp
qed

subsection \<open>run\<close>

lemmas run_defs = run_def has_commands_def Let_def Experiment_run_def started_def print_def
  logging_info_def makedirs_def path_exists_def

lemma run_empty:
  "experiment_list self = [] \<Longrightarrow> run self w = (Returned, self, print ''No more commands to run'' w)"
  by (simp add: run_def has_commands_def)

lemma run_returns:
  assumes "experiment_list self = e # rest"
    and "log_system_stats self \<longrightarrow> ''python'' \<notin> set (missing w)"
  shows "fst (run self w) = Returned"
    and "experiment_list (fst (snd (run self w))) = rest"
    and "number_tests_executed (fst (snd (run self w))) = number_tests_executed self + 1"
    and "log_system_stats (fst (snd (run self w))) = log_system_stats self"
    and "spawned (snd (snd (run self w))) = spawned w @ launches (log_system_stats self) e"
    and "log_lines (snd (snd (run self w))) = log_lines w @ [command e]"
    and "missing (snd (snd (run self w))) = missing w"
  using assms by (simp_all add: run_defs launches_def)

lemma run_raises:
  assumes "experiment_list self = e # rest"
    and "log_system_stats self" and "''python'' \<in> set (missing w)"
  shows "fst (run self w) = Raised (FileNotFoundError ''python'')"
    and "experiment_list (fst (snd (run self w))) = rest"
    and "number_tests_executed (fst (snd (run self w))) = number_tests_executed self"
    and "processes (fst (snd (run self w))) = processes self"
    and "spawned (snd (snd (run self w))) = spawned w"
    and "log_lines (snd (snd (run self w))) = log_lines w @ [command e]"
  using assms by (simp_all add: run_defs)

text \<open>
  Sampling is enabled and \<^verbatim>\<open>python\<close> is not on the search path: \<open>run\<close> pops the only
  Experiment, raises at the start of the sampler, and the counter of executed tests is still 0.
\<close>

theorem run_raises_counterexample:
  "fst (run (example_runner [Experiment ''base'' ''Range'' 20 2 3 [] [] []] True)
          (example_world\<lparr>missing := [''python'']\<rparr>)) = Raised (FileNotFoundError ''python'')
   \<and> experiment_list (fst (snd (run (example_runner [Experiment ''base'' ''Range'' 20 2 3 [] [] []]
          True) (example_world\<lparr>missing := [''python'']\<rparr>)))) = []
   \<and> number_tests_executed (fst (snd (run (example_runner
          [Experiment ''base'' ''Range'' 20 2 3 [] [] []] True)
          (example_world\<lparr>missing := [''python'']\<rparr>)))) = 0
   \<and> number_tests_executed (fst (snd (run (example_runner
          [Experiment ''base'' ''Range'' 20 2 3 [] [] []] True)
          (example_world\<lparr>missing := [''python'']\<rparr>)))) \<noteq>
       number_tests_executed (example_runner [Experiment ''base'' ''Range'' 20 2 3 [] [] []] True)
         + 1"
proof -
  let ?self = "example_runner [Experiment ''base'' ''Range'' 20 2 3 [] [] []] True"
  let ?w = "example_world\<lparr>missing := [''python'']\<rparr>"
  have q: "experiment_list ?self = Experiment ''base'' ''Range'' 20 2 3 [] [] [] # []"
    and s: "log_system_stats ?self" and c: "number_tests_executed ?self = 0"
    by (simp_all add: example_runner_def)
  have m: "''python'' \<in> set (missing ?w)" by simp
  from run_raises(1-3) [OF q s m] c show ?thesis by simp
qed

text \<open>
  Claim C2, as amended. On a queue that is not empty \<open>run\<close> removes the head and nothing
  else (the queue is one shorter). When sampling is disabled or the sampler can be started,
  it returns and has added one to the counter of executed tests. When the start of the
  sampler raises, nothing catches the error: it leaves \<open>run\<close> after the head was removed,
  and the counter is as it was. On an empty queue \<open>run\<close> returns the runner as it was,
  having done nothing but print that no command is left.
\<close>

theorem run_pops_head_and_counts:
  "(experiment_list self \<noteq> [] \<longrightarrow>
       experiment_list (fst (snd (run self w))) = tl (experiment_list self)
     \<and> length (experiment_list (fst (snd (run self w)))) + 1 = length (experiment_list self))
   \<and> (experiment_list self \<noteq> [] \<and> (log_system_stats self \<longrightarrow> ''python'' \<notin> set (missing w)) \<longrightarrow>
       fst (run self w) = Returned
     \<and> number_tests_executed (fst (snd (run self w))) = number_tests_executed self + 1)
   \<and> (experiment_list self \<noteq> [] \<and> log_system_stats self \<and> ''python'' \<in> set (missing w) \<longrightarrow>
       fst (run self w) = Raised (FileNotFoundError ''python'')
     \<and> number_tests_executed (fst (snd (run self w))) = number_tests_executed self)
   \<and> (experiment_list self = [] \<longrightarrow>
       run self w = (Returned, self, print ''No more commands to run'' w))"
proof (intro conjI impI)
  assume ne: "experiment_list self \<noteq> []"
  then obtain e rest where q: "experiment_list self = e # rest"
    by (cases "experiment_list self") auto
  show "experiment_list (fst (snd (run self w))) = tl (experiment_list self)"
  proof (cases "log_system_stats self \<and> ''python'' \<in> set (missing w)")
    case True
    with run_raises(2) [OF q] q show ?thesis by simp
  next
    case False
    then have "log_system_stats self \<longrightarrow> ''python'' \<notin> set (missing w)" by blast
    from run_returns(2) [OF q this] q show ?thesis by simp
  qed
  with ne show "length (experiment_list (fst (snd (run self w)))) + 1 =
      length (experiment_list self)"
    by (simp add: q)
next
  assume h: "experiment_list self \<noteq> [] \<and> (log_system_stats self \<longrightarrow> ''python'' \<notin> set (missing w))"
  then obtain e rest where q: "experiment_list self = e # rest"
    by (cases "experiment_list self") auto
  from h have ok: "log_system_stats self \<longrightarrow> ''python'' \<notin> set (missing w)" by simp
  from run_returns(1) [OF q ok] show "fst (run self w) = Returned" .
  from run_returns(3) [OF q ok]
  show "number_tests_executed (fst (snd (run self w))) = number_tests_executed self + 1" .
next
  assume h: "experiment_list self \<noteq> [] \<and> log_system_stats self \<and> ''python'' \<in> set (missing w)"
  then obtain e rest where q: "experiment_list self = e # rest"
    by (cases "experiment_list self") auto
  from h have s: "log_system_stats self" and m: "''python'' \<in> set (missing w)" by simp_all
  from run_raises(1) [OF q s m] show "fst (run self w) = Raised (FileNotFoundError ''python'')" .
  from run_raises(3) [OF q s m]
  show "number_tests_executed (fst (snd (run self w))) = number_tests_executed self" .
next
  assume "experiment_list self = []"
  then show "run self w = (Returned, self, print ''No more commands to run'' w)"
    by (rule run_empty)
qed

theorem run_pops_head_and_counts_witness:
  "experiment_list (fst (snd (run (example_runner [Experiment ''base'' ''Range'' 20 2 3 [] [] []]
      False) example_world))) = []
   \<and> fst (run (example_runner [Experiment ''base'' ''Range'' 20 2 3 [] [] []] False)
      example_world) = Returned
   \<and> number_tests_executed (fst (snd (run (example_runner
      [Experiment ''base'' ''Range'' 20 2 3 [] [] []] False) example_world))) = 1
   \<and> number_tests_executed (fst (snd (run (example_runner
      [Experiment ''base'' ''Range'' 20 2 3 [] [] []] True)
      (example_world\<lparr>missing := [''python'']\<rparr>)))) = 0
   \<and> run (example_runner [] False) example_world =
       (Returned, example_runner [] False, print ''No more commands to run'' example_world)"
  using run_pops_head_and_counts
      [of "example_runner [Experiment ''base'' ''Range'' 20 2 3 [] [] []] False" example_world]
    run_pops_head_and_counts
      [of "example_runner [Experiment ''base'' ''Range'' 20 2 3 [] [] []] True"
          "example_world\<lparr>missing := [''python'']\<rparr>"]
    run_pops_head_and_counts [of "example_runner [] False" example_world]
  by (simp add: example_runner_def example_world_def)

subsection \<open>kill\<close>

lemma kill_loop_protected: "protected (snd (kill_loop ps w)) = protected w"
  by (induction ps arbitrary: w) (simp_all add: Popen_kill_def started_def)

lemma kill_loop_Returned:
  "fst (kill_loop ps w) = Returned \<longleftrightarrow> (\<forall>p \<in> set ps. pid p \<notin> set (protected w))"
  by (induction ps arbitrary: w) (simp_all add: Popen_kill_def started_def)

lemma kill_loop_Raised:
  "fst (kill_loop ps w) \<noteq> Returned \<Longrightarrow>
     \<exists>p \<in> set ps. fst (kill_loop ps w) = Raised (PermissionError (pid p))"
proof (induction ps arbitrary: w)
  case Nil
  then show ?case by simp
next
  case (Cons p ps)
  show ?case
  proof (cases "pid p \<in> set (protected w)")
    case True
    then show ?thesis by (simp add: Popen_kill_def)
  next
    case False
    let ?w = "snd (Popen (Shell (''kill -9 '' @ str (int (pid p)))) (snd (Popen_kill p w)))"
    from False have step: "kill_loop (p # ps) w = kill_loop ps ?w"
      by (simp add: Popen_kill_def started_def)
    with Cons.prems have "fst (kill_loop ps ?w) \<noteq> Returned" by simp
    from Cons.IH [OF this] obtain q
      where "q \<in> set ps" and "fst (kill_loop ps ?w) = Raised (PermissionError (pid q))"
      by blast
    then show ?thesis unfolding step by (intro bexI [of _ q]) simp_all
  qed
qed

lemma kill_Returned:
  "fst (kill self w) = Returned \<longleftrightarrow> (\<forall>p \<in> set (processes self). pid p \<notin> set (protected w))"
  using kill_loop_Returned [of "processes self" w]
  by (cases "kill_loop (processes self) w") (auto simp: kill_def started_def split: outcome.splits)

lemma kill_processes:
  "processes (fst (snd (kill self w))) =
     (if fst (kill self w) = Returned then [] else processes self)"
  by (cases "kill_loop (processes self) w") (auto simp: kill_def started_def split: outcome.splits)

lemma kill_protected: "protected (snd (snd (kill self w))) = protected w"
  using kill_loop_protected [of "processes self" w]
  by (cases "kill_loop (processes self) w") (auto simp: kill_def started_def split: outcome.splits)

text \<open>
  One handle in the registry, for a pid that may not be signalled: \<open>kill\<close> raises and the
  registry still holds the handle.
\<close>

theorem kill_raises_counterexample:
  "fst (kill \<lparr> processes = [Process 7], number_tests_executed = 1, experiment_list = [],
               log_system_stats = False \<rparr>
             \<lparr> dirs = [], spawned = [], next_pid = 8, killed = [], protected = [7],
               stdout = [], log_lines = [], missing = [] \<rparr>) = Raised (PermissionError 7)
   \<and> processes (fst (snd (kill \<lparr> processes = [Process 7], number_tests_executed = 1,
               experiment_list = [], log_system_stats = False \<rparr>
             \<lparr> dirs = [], spawned = [], next_pid = 8, killed = [], protected = [7],
               stdout = [], log_lines = [], missing = [] \<rparr>))) = [Process 7]
   \<and> fst (kill \<lparr> processes = [Process 7], number_tests_executed = 1, experiment_list = [],
               log_system_stats = False \<rparr>
             \<lparr> dirs = [], spawned = [], next_pid = 8, killed = [], protected = [7],
               stdout = [], log_lines = [], missing = [] \<rparr>) \<noteq> Returned
   \<and> processes (fst (snd (kill \<lparr> processes = [Process 7], number_tests_executed = 1,
               experiment_list = [], log_system_stats = False \<rparr>
             \<lparr> dirs = [], spawned = [], next_pid = 8, killed = [], protected = [7],
               stdout = [], log_lines = [], missing = [] \<rparr>))) \<noteq> []"
  by (simp add: kill_def Popen_kill_def)

text \<open>
  Claim C3, as amended. When no tracked handle refuses the signal, in particular when the
  registry is empty, \<open>kill\<close> returns and leaves the registry empty. When terminating some
  tracked handle raises, nothing catches the error: it leaves \<open>kill\<close> and the registry is as
  it was. In both cases a second \<open>kill\<close> right after the first leaves the registry as the
  first left it.
\<close>

theorem kill_registry:
  "((\<forall>p \<in> set (processes self). pid p \<notin> set (protected w)) \<longrightarrow>
       fst (kill self w) = Returned \<and> processes (fst (snd (kill self w))) = [])
   \<and> ((\<exists>p \<in> set (processes self). pid p \<in> set (protected w)) \<longrightarrow>
       (\<exists>p \<in> set (processes self). fst (kill self w) = Raised (PermissionError (pid p)))
       \<and> processes (fst (snd (kill self w))) = processes self)
   \<and> processes (fst (snd (kill (fst (snd (kill self w))) (snd (snd (kill self w)))))) =
       processes (fst (snd (kill self w)))"
proof (intro conjI impI)
  assume ok: "\<forall>p \<in> set (processes self). pid p \<notin> set (protected w)"
  then show "fst (kill self w) = Returned" by (simp add: kill_Returned)
  then show "processes (fst (snd (kill self w))) = []" by (simp add: kill_processes)
next
  assume "\<exists>p \<in> set (processes self). pid p \<in> set (protected w)"
  then have raised: "fst (kill self w) \<noteq> Returned" by (simp add: kill_Returned)
  then have "fst (kill_loop (processes self) w) \<noteq> Returned"
    by (cases "kill_loop (processes self) w") (auto simp: kill_def started_def split: outcome.splits)
  from kill_loop_Raised [OF this]
  show "\<exists>p \<in> set (processes self). fst (kill self w) = Raised (PermissionError (pid p))"
    by (cases "kill_loop (processes self) w") (auto simp: kill_def started_def split: outcome.splits)
  from raised show "processes (fst (snd (kill self w))) = processes self"
    by (simp add: kill_processes)
next
  let ?s1 = "fst (snd (kill self w))" and ?w1 = "snd (snd (kill self w))"
  show "processes (fst (snd (kill ?s1 ?w1))) = processes ?s1"
  proof (cases "fst (kill self w) = Returned")
    case True
    then have "processes ?s1 = []" by (simp add: kill_processes)
    then show ?thesis by (simp add: kill_processes)
  next
    case False
    then have same: "processes ?s1 = processes self" by (simp add: kill_processes)
    from False have "fst (kill ?s1 ?w1) \<noteq> Returned"
      by (simp add: kill_Returned same kill_protected)
    then show ?thesis by (simp add: kill_processes)
  qed
qed

theorem kill_registry_witness:
  "fst (kill (example_runner [] False\<lparr>processes := [Process 100, Process 101]\<rparr>) example_world)
     = Returned
   \<and> processes (fst (snd (kill (example_runner [] False\<lparr>processes := [Process 100, Process 101]\<rparr>)
       example_world))) = []
   \<and> processes (fst (snd (kill (example_runner [] False\<lparr>processes := [Process 100, Process 101]\<rparr>)
       (example_world\<lparr>protected := [101]\<rparr>)))) = [Process 100, Process 101]"
  using kill_registry
      [of "example_runner [] False\<lparr>processes := [Process 100, Process 101]\<rparr>" example_world]
    kill_registry
      [of "example_runner [] False\<lparr>processes := [Process 100, Process 101]\<rparr>"
          "example_world\<lparr>protected := [101]\<rparr>"]
  by (simp add: example_runner_def example_world_def)

subsection \<open>Validation\<close>

lemma check_rate_sorted:
  assumes "sorted ys"
  shows "check_rate ys = (if \<forall>x \<in> set ys. 0 < x then Inr ()
     else Inl (ParserError ''rate must be greater than 0''))"
proof (cases ys)
  case Nil
  then show ?thesis by simp
next
  case (Cons y rest)
  with assms have "\<forall>x \<in> set rest. y \<le> x" by simp
  then have "(\<forall>x \<in> set ys. 0 < x) \<longleftrightarrow> 0 < y" using Cons by auto
  then show ?thesis using Cons by simp
qed

lemma check_publishers_sorted:
  assumes "sorted ys"
  shows "check_publishers ys = (if \<forall>x \<in> set ys. 0 < x then Inr ()
     else Inl (ParserError ''publishers must be greater than 0''))"
proof (cases ys)
  case Nil
  then show ?thesis by simp
next
  case (Cons y rest)
  with assms have "\<forall>x \<in> set rest. y \<le> x" by simp
  then have "(\<forall>x \<in> set ys. 0 < x) \<longleftrightarrow> 0 < y" using Cons by auto
  then show ?thesis using Cons by simp
qed

lemma check_subscribers_sorted:
  assumes "sorted ys"
  shows "check_subscribers ys = (if \<forall>x \<in> set ys. 0 \<le> x then Inr ()
     else Inl (ParserError ''subscribers must be greater than or equal to 0''))"
proof (cases ys)
  case Nil
  then show ?thesis by simp
next
  case (Cons y rest)
  with assms have "\<forall>x \<in> set rest. y \<le> x" by simp
  then have "(\<forall>x \<in> set ys. 0 \<le> x) \<longleftrightarrow> 0 \<le> y" using Cons by auto
  then show ?thesis using Cons by (simp add: not_le)
qed

lemma validate_eq:
  "validate a =
     (if \<not> (\<forall>x \<in> set (a_rate a). 0 < x) then Inl (ParserError ''rate must be greater than 0'')
      else if \<not> (\<forall>x \<in> set (a_publishers a). 0 < x)
        then Inl (ParserError ''publishers must be greater than 0'')
      else if \<not> (\<forall>x \<in> set (a_subscribers a). 0 \<le> x)
        then Inl (ParserError ''subscribers must be greater than or equal to 0'')
      else if a_period a \<le> - 1 then Inl (ParserError ''period must be greater than 0'')
      else Inr (sort (a_rate a), sort (a_publishers a), sort (a_subscribers a), a_period a + 1))"
  by (simp add: validate_def Let_def check_rate_sorted check_publishers_sorted
        check_subscribers_sorted le_diff_eq)

lemma validate_accepts_iff:
  "(\<exists>res. validate a = Inr res) \<longleftrightarrow>
     (\<forall>x \<in> set (a_rate a). 0 < x) \<and> (\<forall>x \<in> set (a_publishers a). 0 < x)
     \<and> (\<forall>x \<in> set (a_subscribers a). 0 \<le> x) \<and> - 1 < a_period a"
  by (auto simp: validate_eq not_le not_less)

lemma main_rejects:
  assumes "(\<exists>x \<in> set (a_rate a). x \<le> 0) \<or> (\<exists>x \<in> set (a_publishers a). x \<le> 0)
     \<or> (\<exists>x \<in> set (a_subscribers a). x < 0) \<or> a_period a \<le> - 1"
  shows "\<exists>msg. validate a = Inl (ParserError msg) \<and> main a date w = Inl (ParserError msg)"
proof -
  from assms have "\<not> (\<exists>res. validate a = Inr res)"
    unfolding validate_accepts_iff by (auto simp: not_le not_less)
  then obtain err where err: "validate a = Inl err" by (cases "validate a") auto
  then obtain msg where "err = ParserError msg"
    by (auto simp: validate_eq split: if_splits)
  with err show ?thesis by (simp add: main_def)
qed

text \<open>
  Claim C4 at period 0. The test \<^verbatim>\<open>period <= 0\<close> comes after one second has been added, so
  a period of 0 is 1.0 when it is tested: validation succeeds and \<open>main\<close> goes on to build
  the runner, although the message of the test reads "period must be greater than 0". The
  rates, publisher counts and subscriber counts are rejected as the claim says
  (\<open>main_rejects\<close>), and every valid argument set is accepted (\<open>validate_accepts_iff\<close>).
\<close>

theorem validate_accepts_period_zero:
  "validate \<lparr> a_period = 0, a_topics = [''Struct256''], a_rate = [7], a_publishers = [1],
              a_subscribers = [1], a_reliability = False, a_durability = False,
              a_security = False, a_system_stats = False \<rparr> = Inr ([7], [1], [1], 1)
   \<and> (\<exists>tests_to_run w'.
         main \<lparr> a_period = 0, a_topics = [''Struct256''], a_rate = [7], a_publishers = [1],
                a_subscribers = [1], a_reliability = False, a_durability = False,
                a_security = False, a_system_stats = False \<rparr>
           ''2019-06-01_12-00-00'' example_world = Inr (tests_to_run, 1, w')
         \<and> length (experiment_list tests_to_run) = 1)"
  by (simp add: main_def validate_def Let_def ExperimentRunner_def
        generate_experiment_permutations_def product7_def)

subsection \<open>Decimal strings determine their number\<close>

lemma digit_cases:
  "d < 10 \<Longrightarrow> d = 0 \<or> d = 1 \<or> d = 2 \<or> d = 3 \<or> d = 4 \<or> d = 5 \<or> d = 6 \<or> d = 7
     \<or> d = 8 \<or> d = (9::nat)"
  by arith

lemma digit_value_digit: "d < 10 \<Longrightarrow> digit_value (digit d) = d"
  using digit_cases [of d] by (auto simp: digit_def digit_value_def)

lemma digit_in_digits: "d < 10 \<Longrightarrow> digit d \<in> set ''0123456789''"
  using digit_cases [of d] by (auto simp: digit_def)

lemma parse_nat_snoc: "parse_nat (s @ [c]) = 10 * parse_nat s + digit_value c"
  by (simp add: parse_nat_def)

lemma parse_nat_str_nat: "parse_nat (str_nat n) = n"
proof (induction n rule: str_nat.induct)
  case (1 n)
  show ?case
  proof (cases "n < 10")
    case True
    then show ?thesis by (simp add: str_nat.simps [of n] parse_nat_def digit_value_digit)
  next
    case False
    with "1" have "parse_nat (str_nat (n div 10)) = n div 10" by simp
    with False show ?thesis
      by (simp add: str_nat.simps [of n] parse_nat_snoc digit_value_digit)
  qed
qed

lemma set_str_nat: "set (str_nat n) \<subseteq> set ''0123456789''"
proof (induction n rule: str_nat.induct)
  case (1 n)
  show ?case
  proof (cases "n < 10")
    case True
    then show ?thesis using digit_in_digits [of n] by (simp add: str_nat.simps [of n])
  next
    case False
    with "1" have "set (str_nat (n div 10)) \<subseteq> set ''0123456789''" by simp
    moreover have "digit (n mod 10) \<in> set ''0123456789''" by (rule digit_in_digits) simp
    ultimately show ?thesis using False by (simp add: str_nat.simps [of n])
  qed
qed

lemma str_chars:
  assumes "c \<in> set (str i)"
  shows "c = CHR ''-'' \<or> c \<in> set ''0123456789''"
proof (cases "i < 0")
  case True
  with assms have "c = CHR ''-'' \<or> c \<in> set (str_nat (nat (- i)))" by (simp add: str_def)
  with set_str_nat show ?thesis by blast
next
  case False
  with assms have "c \<in> set (str_nat (nat i))" by (simp add: str_def)
  with set_str_nat show ?thesis by blast
qed

lemma str_nat_inj: "str_nat m = str_nat n \<Longrightarrow> m = n"
  by (metis parse_nat_str_nat)

lemma minus_not_in_str_nat: "CHR ''-'' \<notin> set (str_nat n)"
  using set_str_nat [of n] by auto

lemma str_inj: 
  assumes "str i = str j" 
  shows "i = j"
proof -
  have neg_pos: False if "a < 0" "\<not> b < 0" "str a = str b" for a b
  proof -
    from that have "CHR ''-'' # str_nat (nat (- a)) = str_nat (nat b)" by (simp add: str_def)
    then have "CHR ''-'' \<in> set (str_nat (nat b))" by (metis list.set_intros(1))
    with minus_not_in_str_nat show False by blast
  qed
  show ?thesis
  proof (cases "i < 0"; cases "j < 0")
    assume "i < 0" "j < 0"
    with assms have "nat (- i) = nat (- j)" by (simp add: str_def str_nat_inj)
    with \<open>i < 0\<close> \<open>j < 0\<close> show ?thesis by simp
  next
    assume "i < 0" "\<not> j < 0"
    with assms neg_pos show ?thesis by blast
  next
    assume "\<not> i < 0" "j < 0"
    with assms neg_pos [of j i] show ?thesis by simp
  next
    assume "\<not> i < 0" "\<not> j < 0"
    with assms have "nat i = nat j" by (simp add: str_def str_nat_inj)
    with \<open>\<not> i < 0\<close> \<open>\<not> j < 0\<close> show ?thesis by simp
  qed
qed

lemma split_at_separator:
  assumes "c \<notin> set a" and "c \<notin> set a'" and "a @ c # b = a' @ c # b'"
  shows "a = a' \<and> b = b'"
  using assms
proof (induction a arbitrary: a')
  case Nil
  then show ?case by (cases a') auto
next
  case (Cons x a)
  then show ?case by (cases a') auto
qed

lemma underscore_not_in_str: "CHR ''_'' \<notin> set (str i)"
  using str_chars [of "CHR ''_''" i] by auto

lemma flag_suffix_inj:
  "flag_suffix a b c = flag_suffix a' b' c' \<Longrightarrow> a = a' \<and> b = b' \<and> c = c'"
  by (cases a; cases b; cases c; cases a'; cases b'; cases c')
     (simp_all add: flag_suffix_def active_flags_def flag_defs)

lemma file_name_inj:
  assumes "file_name (Experiment base t r np ns rel dur sec) =
           file_name (Experiment base t r' np' ns' rel dur sec)"
  shows "r = r' \<and> np = np' \<and> ns = ns'"
proof -
  let ?sfx = "flag_suffix (rel \<noteq> []) (dur \<noteq> []) (sec \<noteq> [])"
  from assms have
    "str r @ CHR ''_'' # (CHR ''p'' # str np @ ''_s'' @ str ns @ ?sfx @ ''.log'') =
     str r' @ CHR ''_'' # (CHR ''p'' # str np' @ ''_s'' @ str ns' @ ?sfx @ ''.log'')"
    by (simp add: file_name_Experiment)
  from split_at_separator [OF underscore_not_in_str underscore_not_in_str this]
  have r: "str r = str r'"
    and "str np @ CHR ''_'' # (CHR ''s'' # str ns @ ?sfx @ ''.log'') =
         str np' @ CHR ''_'' # (CHR ''s'' # str ns' @ ?sfx @ ''.log'')"
    by simp_all
  from split_at_separator [OF underscore_not_in_str underscore_not_in_str this(2)]
  have np: "str np = str np'" and ns: "str ns = str ns'" by simp_all
  from r np ns show ?thesis by (simp add: str_inj)
qed

subsection \<open>Where replace leaves a string alone\<close>

lemma replace_skip:
  assumes "old \<noteq> []" and "\<And>i. i < length a \<Longrightarrow> \<not> prefix old (drop i (a @ b))"
  shows "replace (a @ b) old new = a @ replace b old new"
  using assms(2)
proof (induction a)
  case Nil
  show ?case by simp
next
  case (Cons x a)
  have "\<not> prefix old (x # a @ b)" using Cons.prems [of 0] by simp
  moreover have "replace (a @ b) old new = a @ replace b old new"
  proof (rule Cons.IH)
    fix i assume "i < length a"
    then show "\<not> prefix old (drop i (a @ b))" using Cons.prems [of "Suc i"] by simp
  qed
  ultimately show ?case using assms(1) by (simp add: replace.simps)
qed

lemma replace_hit:
  assumes "old \<noteq> []"
  shows "replace (old @ b) old new = new @ replace b old new"
proof -
  from assms obtain c cs where old: "old = c # cs" by (cases old) auto
  have "replace ((c # cs) @ b) (c # cs) new = new @ replace b (c # cs) new"
    by (simp add: replace.simps)
  then show ?thesis by (simp only: old)
qed

lemma replace_skip_sep:
  assumes "\<not> sublist old a" and "c \<notin> set old"
  shows "replace (a @ c # b) old new = a @ c # replace b old new"
proof -
  from assms(1) have ne: "old \<noteq> []" by auto
  have no: "\<not> prefix old (drop i ((a @ [c]) @ b))" if "i < length (a @ [c])" for i
  proof
    assume p: "prefix old (drop i ((a @ [c]) @ b))"
    from that have "drop i ((a @ [c]) @ b) = drop i a @ c # b" by simp
    with p have "prefix old (drop i a @ c # b)" by simp
    then have alt: "prefix old (drop i a) \<or> (\<exists>us. old = drop i a @ us \<and> prefix us (c # b))"
      by (simp add: prefix_append)
    have inside: False if "prefix old (drop i a)"
    proof -
      from that obtain zs where "drop i a = old @ zs" by (auto simp: prefix_def)
      then have "a = take i a @ old @ zs" by (metis append_take_drop_id)
      then have "sublist old a" unfolding sublist_def by blast
      with assms(1) show False by simp
    qed
    from alt show False
    proof
      assume "prefix old (drop i a)"
      then show False by (rule inside)
    next
      assume "\<exists>us. old = drop i a @ us \<and> prefix us (c # b)"
      then obtain us where us: "old = drop i a @ us" "prefix us (c # b)" by blast
      show False
      proof (cases us)
        case Nil
        with us(1) have "prefix old (drop i a)" by simp
        then show False by (rule inside)
      next
        case (Cons u us')
        with us(2) have "u = c" by simp
        with us(1) Cons have "c \<in> set old" by simp
        with assms(2) show False by simp
      qed
    qed
  qed
  have "replace ((a @ [c]) @ b) old new = (a @ [c]) @ replace b old new"
    using ne no by (rule replace_skip)
  then show ?thesis by simp
qed

lemma replace_skip_absent:
  assumes "x \<in> set old" and "x \<notin> set a" and "c \<notin> set old"
  shows "replace (a @ c # b) old new = a @ c # replace b old new"
proof (rule replace_skip_sep)
  show "\<not> sublist old a"
  proof
    assume "sublist old a"
    then have "set old \<subseteq> set a" by (rule set_mono_sublist)
    with assms(1,2) show False by blast
  qed
  show "c \<notin> set old" by (rule assms(3))
qed

lemma replace_skip_head:
  assumes "h \<notin> set a"
  shows "replace (a @ b) (h # rest) new = a @ replace b (h # rest) new"
proof (rule replace_skip)
  show "h # rest \<noteq> []" by simp
next
  fix i assume i: "i < length a"
  show "\<not> prefix (h # rest) (drop i (a @ b))"
  proof
    assume "prefix (h # rest) (drop i (a @ b))"
    moreover from i have "drop i (a @ b) = a ! i # drop (Suc i) a @ b"
      by (simp add: Cons_nth_drop_Suc)
    ultimately have "h = a ! i" by simp
    with i assms show False by simp
  qed
qed

lemma replace_absent:
  assumes "x \<in> set old" and "x \<notin> set s"
  shows "replace s old new = s"
proof -
  from assms(1) have ne: "old \<noteq> []" by auto
  have "replace (s @ []) old new = s @ replace [] old new"
  proof (rule replace_skip [OF ne])
    fix i
    show "\<not> prefix old (drop i (s @ []))"
    proof
      assume "prefix old (drop i (s @ []))"
      then have "set old \<subseteq> set (drop i s)" by (simp add: set_mono_prefix)
      then have "set old \<subseteq> set s" using set_drop_subset by fastforce
      with assms show False by blast
    qed
  qed
  with ne show ?thesis by (simp add: replace.simps)
qed

subsection \<open>The characters of the parts of a file name\<close>

lemma valid_topic_chars:
  "t \<in> set VALID_TOPICS \<Longrightarrow> CHR ''p'' \<notin> set t \<and> CHR ''.'' \<notin> set t"
  by (auto simp: VALID_TOPICS_def)

lemma flag_suffix_chars:
  "CHR ''p'' \<notin> set (flag_suffix a b c) \<and> CHR ''o'' \<notin> set (flag_suffix a b c)
     \<and> CHR ''.'' \<notin> set (flag_suffix a b c)"
  by (cases a; cases b; cases c) (simp_all add: flag_suffix_def active_flags_def flag_defs)

lemma str_no_letters:
  "CHR ''p'' \<notin> set (str i) \<and> CHR ''o'' \<notin> set (str i) \<and> CHR ''.'' \<notin> set (str i)"
  using str_chars [of "CHR ''p''" i] str_chars [of "CHR ''o''" i] str_chars [of "CHR ''.''" i]
  by auto

lemma replace_topic_file_name:
  assumes t: "t \<in> set VALID_TOPICS" and base: "\<not> sublist ''topic'' base"
  shows "replace (file_name (Experiment base t r np ns rel dur sec)) ''topic'' ''system_info_topic''
     = base @ ''/'' @ t @ flag_suffix (rel \<noteq> []) (dur \<noteq> []) (sec \<noteq> [])
       @ ''/system_info_topic'' @ t @ ''_rate'' @ str r @ ''_p'' @ str np @ ''_s'' @ str ns
       @ flag_suffix (rel \<noteq> []) (dur \<noteq> []) (sec \<noteq> []) @ ''.log''"
proof -
  let ?sfx = "flag_suffix (rel \<noteq> []) (dur \<noteq> []) (sec \<noteq> [])"
  let ?new = "''system_info_topic''"
  let ?tail = "CHR ''p'' # str np @ ''_s'' @ str ns @ ?sfx"
  let ?mid = "t @ ''_rate'' @ str r"
  note tc = valid_topic_chars [OF t] and fc = flag_suffix_chars and sc = str_no_letters
  have shape: "file_name (Experiment base t r np ns rel dur sec) =
      base @ CHR ''/'' # ((t @ ?sfx) @ CHR ''/'' # (''topic'' @ (?mid @ CHR ''_'' # (?tail @ CHR ''.'' # ''log''))))"
    by (simp add: file_name_Experiment)
  let ?x3 = "?tail @ CHR ''.'' # ''log''"
  let ?x2 = "?mid @ CHR ''_'' # ?x3"
  let ?x1 = "(t @ ?sfx) @ CHR ''/'' # (''topic'' @ ?x2)"
  have s1: "replace (base @ CHR ''/'' # ?x1) ''topic'' ?new
      = base @ CHR ''/'' # replace ?x1 ''topic'' ?new"
    using base by (rule replace_skip_sep) simp
  have s2: "replace ?x1 ''topic'' ?new
      = (t @ ?sfx) @ CHR ''/'' # replace (''topic'' @ ?x2) ''topic'' ?new"
    by (rule replace_skip_absent [where x = "CHR ''p''"]) (use tc fc in simp_all)
  have s3: "replace (''topic'' @ ?x2) ''topic'' ?new = ?new @ replace ?x2 ''topic'' ?new"
    by (rule replace_hit) simp
  have s4: "replace ?x2 ''topic'' ?new = ?mid @ CHR ''_'' # replace ?x3 ''topic'' ?new"
    by (rule replace_skip_absent [where x = "CHR ''p''"]) (use tc sc in simp_all)
  have s5: "replace ?x3 ''topic'' ?new = ?tail @ CHR ''.'' # replace ''log'' ''topic'' ?new"
    by (rule replace_skip_absent [where x = "CHR ''o''"]) (use fc sc in simp_all)
  have s6: "replace ''log'' ''topic'' ?new = ''log''"
    by (rule replace_absent [where x = "CHR ''t''"]) simp_all
  show ?thesis by (simp only: shape s1 s2 s3 s4 s5 s6) simp
qed

lemma replace_log_file_name:
  assumes t: "t \<in> set VALID_TOPICS" and base: "\<not> sublist ''.log'' base"
  shows "replace (base @ ''/'' @ t @ flag_suffix fr fd fs
       @ ''/system_info_topic'' @ t @ ''_rate'' @ str r @ ''_p'' @ str np @ ''_s'' @ str ns
       @ flag_suffix fr fd fs @ ''.log'') ''.log'' ''.csv''
     = sampler_file_name base t r np ns fr fd fs"
proof -
  let ?sfx = "flag_suffix fr fd fs"
  let ?body = "t @ ?sfx @ ''/system_info_topic'' @ t @ ''_rate'' @ str r @ ''_p'' @ str np
                 @ ''_s'' @ str ns @ ?sfx"
  note tc = valid_topic_chars [OF t] and fc = flag_suffix_chars and sc = str_no_letters
  have shape: "base @ ''/'' @ t @ ?sfx @ ''/system_info_topic'' @ t @ ''_rate'' @ str r @ ''_p''
        @ str np @ ''_s'' @ str ns @ ?sfx @ ''.log''
      = base @ CHR ''/'' # (?body @ ''.log'')"
    by simp
  have s1: "replace (base @ CHR ''/'' # (?body @ ''.log'')) ''.log'' ''.csv''
      = base @ CHR ''/'' # replace (?body @ ''.log'') ''.log'' ''.csv''"
    using base by (rule replace_skip_sep) simp
  have s2: "replace (?body @ ''.log'') ''.log'' ''.csv'' = ?body @ replace ''.log'' ''.log'' ''.csv''"
    by (rule replace_skip_head) (use tc fc sc in simp)
  have s3: "replace ''.log'' ''.log'' ''.csv'' = ''.csv''"
    by (simp add: replace.simps)
  show ?thesis by (simp only: shape s1 s2 s3) (simp add: sampler_file_name_def)
qed

lemma sampler_name_of_file_name:
  assumes "t \<in> set VALID_TOPICS" and "\<not> sublist ''topic'' base" and "\<not> sublist ''.log'' base"
  shows "replace (replace (file_name (Experiment base t r np ns rel dur sec))
            ''topic'' ''system_info_topic'') ''.log'' ''.csv''
     = sampler_file_name base t r np ns (rel \<noteq> []) (dur \<noteq> []) (sec \<noteq> [])"
  by (simp only: replace_topic_file_name [OF assms(1,2)] replace_log_file_name [OF assms(1,3)])

lemma main_base_path_clean:
  assumes "set date \<subseteq> set ''0123456789-_''"
  shows "\<not> sublist ''topic'' (''experiment_'' @ date) \<and> \<not> sublist ''.log'' (''experiment_'' @ date)"
proof -
  have o: "CHR ''o'' \<notin> set (''experiment_'' @ date)" and dot: "CHR ''.'' \<notin> set (''experiment_'' @ date)"
    using assms by auto
  have "\<not> sublist ''topic'' (''experiment_'' @ date)"
  proof
    assume "sublist ''topic'' (''experiment_'' @ date)"
    then have "set ''topic'' \<subseteq> set (''experiment_'' @ date)" by (rule set_mono_sublist)
    with o show False by simp
  qed
  moreover have "\<not> sublist ''.log'' (''experiment_'' @ date)"
  proof
    assume "sublist ''.log'' (''experiment_'' @ date)"
    then have "set ''.log'' \<subseteq> set (''experiment_'' @ date)" by (rule set_mono_sublist)
    with dot show False by simp
  qed
  ultimately show ?thesis by simp
qed

lemma file_name_inj_flags:
  assumes "(rel \<noteq> []) = (rel' \<noteq> [])" and "(dur \<noteq> []) = (dur' \<noteq> [])"
    and "(sec \<noteq> []) = (sec' \<noteq> [])"
    and "file_name (Experiment base t r np ns rel dur sec) =
         file_name (Experiment base t r' np' ns' rel' dur' sec')"
  shows "r = r' \<and> np = np' \<and> ns = ns'"
proof -
  have "file_name (Experiment base t r' np' ns' rel' dur' sec') =
        file_name (Experiment base t r' np' ns' rel dur sec)"
    using assms(1-3) by (simp add: file_name_Experiment)
  with assms(4) show ?thesis by (intro file_name_inj) simp
qed

lemma generated_Experiment:
  assumes "e \<in> set (generate_experiment_permutations base T R P S fr fd fs)"
  shows "\<exists>t r np ns rel dur sec. e = Experiment base t r np ns rel dur sec \<and> t \<in> set T
           \<and> r \<in> set R \<and> np \<in> set P \<and> ns \<in> set S"
  using assms by (auto simp: generate_experiment_permutations_def product7_def) blast

text \<open>
  Claim C8. Two Experiments under the same base path with the same topic and the same set of
  active flags share their directory, and their log file names differ whenever their triples
  of rate, publisher count and subscriber count differ. Two Experiments that agree in
  everything but the set of their active flags have different directory paths. The generator
  builds every Experiment with this constructor over one base path (\<open>generated_Experiment\<close>).
\<close>

theorem names_distinct:
  "((rel \<noteq> []) = (rel' \<noteq> []) \<and> (dur \<noteq> []) = (dur' \<noteq> []) \<and> (sec \<noteq> []) = (sec' \<noteq> [])
      \<and> (r, np, ns) \<noteq> (r', np', ns') \<longrightarrow>
        path (Experiment base t r np ns rel dur sec) =
          path (Experiment base t r' np' ns' rel' dur' sec')
      \<and> file_name (Experiment base t r np ns rel dur sec) \<noteq>
          file_name (Experiment base t r' np' ns' rel' dur' sec'))
   \<and> ((rel \<noteq> [], dur \<noteq> [], sec \<noteq> []) \<noteq> (rel' \<noteq> [], dur' \<noteq> [], sec' \<noteq> []) \<longrightarrow>
        path (Experiment base t r np ns rel dur sec) \<noteq>
          path (Experiment base t r np ns rel' dur' sec'))"
proof (intro conjI impI)
  assume h: "(rel \<noteq> []) = (rel' \<noteq> []) \<and> (dur \<noteq> []) = (dur' \<noteq> []) \<and> (sec \<noteq> []) = (sec' \<noteq> [])
      \<and> (r, np, ns) \<noteq> (r', np', ns')"
  then show "path (Experiment base t r np ns rel dur sec) =
      path (Experiment base t r' np' ns' rel' dur' sec')"
    by (simp add: path_Experiment)
  show "file_name (Experiment base t r np ns rel dur sec) \<noteq>
      file_name (Experiment base t r' np' ns' rel' dur' sec')"
  proof
    assume "file_name (Experiment base t r np ns rel dur sec) =
      file_name (Experiment base t r' np' ns' rel' dur' sec')"
    with h have "r = r' \<and> np = np' \<and> ns = ns'" by (intro file_name_inj_flags) simp_all
    with h show False by simp
  qed
next
  assume h: "(rel \<noteq> [], dur \<noteq> [], sec \<noteq> []) \<noteq> (rel' \<noteq> [], dur' \<noteq> [], sec' \<noteq> [])"
  show "path (Experiment base t r np ns rel dur sec) \<noteq>
      path (Experiment base t r np ns rel' dur' sec')"
  proof
    assume "path (Experiment base t r np ns rel dur sec) =
      path (Experiment base t r np ns rel' dur' sec')"
    then have "flag_suffix (rel \<noteq> []) (dur \<noteq> []) (sec \<noteq> []) =
        flag_suffix (rel' \<noteq> []) (dur' \<noteq> []) (sec' \<noteq> [])"
      by (simp add: path_Experiment)
    from flag_suffix_inj [OF this] h show False by simp
  qed
qed

theorem names_distinct_witness:
  "path (Experiment ''base'' ''Range'' 7 1 5 ''reliable'' [] []) =
     path (Experiment ''base'' ''Range'' 8 1 5 ''reliable'' [] [])
   \<and> file_name (Experiment ''base'' ''Range'' 7 1 5 ''reliable'' [] []) \<noteq>
     file_name (Experiment ''base'' ''Range'' 8 1 5 ''reliable'' [] [])
   \<and> path (Experiment ''base'' ''Range'' 7 1 5 ''reliable'' [] []) \<noteq>
     path (Experiment ''base'' ''Range'' 7 1 5 [] ''transient'' [])"
  using names_distinct [of "''reliable''" "''reliable''" "[]" "[]" "[]" "[]" 7 1 5 8 1 5
      "''base''" "''Range''"]
    names_distinct [of "''reliable''" "[]" "[]" "''transient''" "[]" "[]" 7 1 5 7 1 5
      "''base''" "''Range''"]
  by simp

subsection \<open>The file name handed to the sampler\<close>

text \<open>
  \<^verbatim>\<open>main\<close> is the only caller of the generator, and the generator the only caller of the
  constructor: every Experiment of a runner that \<^verbatim>\<open>main\<close> builds lies under the base path
  \<^verbatim>\<open>experiment_\<close> followed by the date, and has its topic from the command line, where
  argparse admits the whitelist only.
\<close>

lemma main_builds:
  assumes "main a date w = Inr (tests_to_run, period, w')"
  shows "log_system_stats tests_to_run = a_system_stats a"
    and "e \<in> set (experiment_list tests_to_run) \<Longrightarrow>
           \<exists>t r np ns rel dur sec.
             e = Experiment (''experiment_'' @ date) t r np ns rel dur sec \<and> t \<in> set (a_topics a)"
proof -
  from assms obtain rates pubs subs per
    where v: "validate a = Inr (rates, pubs, subs, per)"
    by (cases "validate a") (auto simp: main_def)
  from assms v have self: "tests_to_run =
      \<lparr> processes = [], number_tests_executed = 0,
        experiment_list = generate_experiment_permutations (''experiment_'' @ date) (a_topics a)
          rates pubs subs (a_reliability a) (a_durability a) (a_security a),
        log_system_stats = a_system_stats a \<rparr>"
    by (simp add: main_def ExperimentRunner_def Let_def)
  show "log_system_stats tests_to_run = a_system_stats a" by (simp add: self)
  assume "e \<in> set (experiment_list tests_to_run)"
  then have "e \<in> set (generate_experiment_permutations (''experiment_'' @ date) (a_topics a)
          rates pubs subs (a_reliability a) (a_durability a) (a_security a))"
    by (simp add: self)
  from generated_Experiment [OF this]
  show "\<exists>t r np ns rel dur sec.
      e = Experiment (''experiment_'' @ date) t r np ns rel dur sec \<and> t \<in> set (a_topics a)"
    by blast
qed

lemma run_sampler:
  assumes "experiment_list self = e # rest" and "log_system_stats self"
  shows "take 2 (drop (length (stdout w)) (stdout (snd (snd (run self w))))) =
      [''Logging system stats'',
       replace (replace (file_name e) ''topic'' ''system_info_topic'') ''.log'' ''.csv'']"
    and "''python'' \<notin> set (missing w) \<Longrightarrow>
      spawned (snd (snd (run self w))) = spawned w @
        [Argv [''python'', ''log_system_stats.py'', ''-l'',
               replace (replace (file_name e) ''topic'' ''system_info_topic'') ''.log'' ''.csv''],
         Shell (command e)]"
proof -
  show "take 2 (drop (length (stdout w)) (stdout (snd (snd (run self w))))) =
      [''Logging system stats'',
       replace (replace (file_name e) ''topic'' ''system_info_topic'') ''.log'' ''.csv'']"
    using assms by (cases "''python'' \<in> set (missing w)") (simp_all add: run_defs)
  assume "''python'' \<notin> set (missing w)"
  with assms run_returns(5) [of self e rest w]
  show "spawned (snd (snd (run self w))) = spawned w @
        [Argv [''python'', ''log_system_stats.py'', ''-l'',
               replace (replace (file_name e) ''topic'' ''system_info_topic'') ''.log'' ''.csv''],
         Shell (command e)]"
    by (simp add: launches_def)
qed

text \<open>
  Claim C9. Take an Experiment as \<^verbatim>\<open>main\<close> builds them: its topic from the whitelist, its
  base path \<^verbatim>\<open>experiment_\<close> followed by the date that \<^verbatim>\<open>get_date\<close> formats as
  \<^verbatim>\<open>%Y-%m-%d_%H-%M-%S\<close>, a string of digits, hyphens and underscores. With sampling enabled
  and this Experiment at the head of the queue, the name \<open>run\<close> derives for the sampler is
  the log file name with the \<^verbatim>\<open>topic\<close> segment replaced by \<^verbatim>\<open>system_info_topic\<close> and the
  extension \<^verbatim>\<open>.log\<close> by \<^verbatim>\<open>.csv\<close>, the rest of the path unchanged: \<open>run\<close> prints this
  name and, \<^verbatim>\<open>python\<close> being found, starts the sampler on it before the Experiment.
\<close>

theorem run_sampler_file_name:
  assumes "t \<in> set VALID_TOPICS" and "set date \<subseteq> set ''0123456789-_''"
    and "log_system_stats self"
    and "experiment_list self = Experiment (''experiment_'' @ date) t r np ns rel dur sec # rest"
  shows "replace (replace (file_name (Experiment (''experiment_'' @ date) t r np ns rel dur sec))
             ''topic'' ''system_info_topic'') ''.log'' ''.csv'' =
           sampler_file_name (''experiment_'' @ date) t r np ns (rel \<noteq> []) (dur \<noteq> []) (sec \<noteq> [])
       \<and> take 2 (drop (length (stdout w)) (stdout (snd (snd (run self w))))) =
           [''Logging system stats'',
            sampler_file_name (''experiment_'' @ date) t r np ns (rel \<noteq> []) (dur \<noteq> []) (sec \<noteq> [])]
       \<and> (''python'' \<notin> set (missing w) \<longrightarrow>
           spawned (snd (snd (run self w))) = spawned w @
             [Argv [''python'', ''log_system_stats.py'', ''-l'',
                    sampler_file_name (''experiment_'' @ date) t r np ns
                      (rel \<noteq> []) (dur \<noteq> []) (sec \<noteq> [])],
              Shell (command (Experiment (''experiment_'' @ date) t r np ns rel dur sec))])"
proof -
  from main_base_path_clean [OF assms(2)]
  have clean: "\<not> sublist ''topic'' (''experiment_'' @ date)"
    "\<not> sublist ''.log'' (''experiment_'' @ date)" by simp_all
  note name = sampler_name_of_file_name [OF assms(1) clean, of r np ns rel dur sec]
  from run_sampler(1) [OF assms(4,3), of w]
  have printed: "take 2 (drop (length (stdout w)) (stdout (snd (snd (run self w))))) =
      [''Logging system stats'',
       sampler_file_name (''experiment_'' @ date) t r np ns (rel \<noteq> []) (dur \<noteq> []) (sec \<noteq> [])]"
    by (simp only: name)
  have started: "spawned (snd (snd (run self w))) = spawned w @
      [Argv [''python'', ''log_system_stats.py'', ''-l'',
             sampler_file_name (''experiment_'' @ date) t r np ns
               (rel \<noteq> []) (dur \<noteq> []) (sec \<noteq> [])],
       Shell (command (Experiment (''experiment_'' @ date) t r np ns rel dur sec))]"
    if "''python'' \<notin> set (missing w)"
    using run_sampler(2) [OF assms(4,3) that] by (simp only: name)
  from name printed started show ?thesis by (intro conjI impI)
qed

theorem run_sampler_file_name_witness:
  "replace (replace (file_name
       (Experiment ''experiment_2019-06-01_12-00-00'' ''Range'' 20 2 3 ''reliable'' [] []))
       ''topic'' ''system_info_topic'') ''.log'' ''.csv'' =
     ''experiment_2019-06-01_12-00-00/Range_reliable/system_info_topicRange_rate20_p2_s3_reliable.csv''
   \<and> spawned (snd (snd (run (example_runner
       [Experiment ''experiment_2019-06-01_12-00-00'' ''Range'' 20 2 3 ''reliable'' [] []] True)
       example_world))) =
     [Argv [''python'', ''log_system_stats.py'', ''-l'',
            ''experiment_2019-06-01_12-00-00/Range_reliable/system_info_topicRange_rate20_p2_s3_reliable.csv''],
      Shell (command
        (Experiment ''experiment_2019-06-01_12-00-00'' ''Range'' 20 2 3 ''reliable'' [] []))]"
proof -
  have t: "''Range'' \<in> set VALID_TOPICS" by (simp add: VALID_TOPICS_def)
  have d: "set ''2019-06-01_12-00-00'' \<subseteq> set ''0123456789-_''" by simp
  have s: "log_system_stats (example_runner
       [Experiment ''experiment_2019-06-01_12-00-00'' ''Range'' 20 2 3 ''reliable'' [] []] True)"
    by (simp add: example_runner_def)
  have q: "experiment_list (example_runner
       [Experiment (''experiment_'' @ ''2019-06-01_12-00-00'') ''Range'' 20 2 3 ''reliable'' [] []]
       True)
     = Experiment (''experiment_'' @ ''2019-06-01_12-00-00'') ''Range'' 20 2 3 ''reliable'' [] [] # []"
    by (simp add: example_runner_def)
  have s': "log_system_stats (example_runner
       [Experiment (''experiment_'' @ ''2019-06-01_12-00-00'') ''Range'' 20 2 3 ''reliable'' [] []]
       True)"
    by (simp add: example_runner_def)
  have n: "sampler_file_name (''experiment_'' @ ''2019-06-01_12-00-00'') ''Range'' 20 2 3
        (''reliable'' \<noteq> []) ([] \<noteq> ([]::string)) ([] \<noteq> ([]::string)) =
      ''experiment_2019-06-01_12-00-00/Range_reliable/system_info_topicRange_rate20_p2_s3_reliable.csv''"
    by (simp add: sampler_file_name_def flag_suffix_def active_flags_def flag_defs str_def
          str_nat.simps digit_def)
  have p: "''python'' \<notin> set (missing example_world)" by (simp add: example_world_def)
  note inst = run_sampler_file_name [OF t d s' q, of example_world]
  from inst [THEN conjunct1] n
  have a: "replace (replace (file_name
       (Experiment ''experiment_2019-06-01_12-00-00'' ''Range'' 20 2 3 ''reliable'' [] []))
       ''topic'' ''system_info_topic'') ''.log'' ''.csv'' =
     ''experiment_2019-06-01_12-00-00/Range_reliable/system_info_topicRange_rate20_p2_s3_reliable.csv''"
    by simp
  from inst [THEN conjunct2, THEN conjunct2, THEN mp, OF p] n
  have b: "spawned (snd (snd (run (example_runner
       [Experiment ''experiment_2019-06-01_12-00-00'' ''Range'' 20 2 3 ''reliable'' [] []] True)
       example_world))) =
     [Argv [''python'', ''log_system_stats.py'', ''-l'',
            ''experiment_2019-06-01_12-00-00/Range_reliable/system_info_topicRange_rate20_p2_s3_reliable.csv''],
      Shell (command
        (Experiment ''experiment_2019-06-01_12-00-00'' ''Range'' 20 2 3 ''reliable'' [] []))]"
    by (simp add: example_world_def)
  from a b show ?thesis by (intro conjI)
qed

subsection \<open>The order of the generated experiments\<close>







subsection \<open>The queue is served from its head\<close>







end
